theory Spec2Isabelle
  imports Main
begin

section \<open>Python values and exceptions\<close>

text \<open>
  \<^verbatim>\<open>tagbot/repo.py\<close> reads workflow files through \<^verbatim>\<open>yaml.safe_load\<close>, and
  \<^verbatim>\<open>Project.toml\<close>, \<^verbatim>\<open>Registry.toml\<close> and \<^verbatim>\<open>Versions.toml\<close> through
  \<^verbatim>\<open>toml.load\<close> and \<^verbatim>\<open>toml.loads\<close>. Both parsers return plain Python
  objects, and the code walks them with subscripts, \<^verbatim>\<open>in\<close> and \<^verbatim>\<open>for\<close>. The objects
  are modelled by one datatype; a dict is an association list in insertion order.
  Floats, dates and byte strings, which the parsers can also build, are left out: for
  every operation used here they behave like \<open>PInt\<close> (not subscriptable by a string,
  no \<^verbatim>\<open>values()\<close>) or raise as well.

  A Python \<^verbatim>\<open>str\<close> is a \<^typ>\<open>string\<close> holding its UTF-8 encoding, so an ASCII string
  is itself and a character beyond ASCII is several bytes. Concatenation and
  \<^verbatim>\<open>in\<close> between strings are the same on the bytes as on the characters.
\<close>

datatype pyval =
    PNone
  | PBool bool
  | PInt int
  | PStr string
  | PList "pyval list"
  | PDict "(pyval \<times> pyval) list"

text \<open>
  Every \<^verbatim>\<open>raise\<close> of the source and every exception of a library call that the source
  can meet is a value. \<open>IllTyped\<close> is the one model-only value: it marks a parsed
  value that is not a \<^verbatim>\<open>str\<close> where the source's annotations (\<^verbatim>\<open>Dict[str, str]\<close>,
  \<^verbatim>\<open>Optional[str]\<close>) declare one; Python would carry such a value on unchecked.
\<close>

datatype error =
    Abort string
  | KeyError
  | TypeError
  | IndexError
  | AttributeError
  | ValueError
  | BinasciiError
  | UnicodeDecodeError
  | OSError
  | YAMLError
  | TomlDecodeError
  | CroniterError
  | UnknownObjectException
  | GithubException
  | IllTyped

type_synonym 'a result = "error + 'a"

text \<open>
  The characters of a \<^verbatim>\<open>str\<close>. In UTF-8 a character is one byte below 128, or a lead
  byte followed by one to three more bytes; for a lead byte, \<open>utf8_tail\<close> gives the
  number of bytes that follow it and the range of the first of them. \<open>str_chars\<close>
  cuts a \<^verbatim>\<open>str\<close> into its characters, which is what indexing, slicing and iterating a
  \<^verbatim>\<open>str\<close> work on; \<open>str_tail s\<close> is the slice \<^verbatim>\<open>s[1:]\<close>.
\<close>

definition utf8_tail :: "nat \<Rightarrow> (nat \<times> nat \<times> nat) option" where
  "utf8_tail b =
     (if 194 \<le> b \<and> b \<le> 223 then Some (1, 128, 191)
      else if b = 224 then Some (2, 160, 191)
      else if b = 237 then Some (2, 128, 159)
      else if 225 \<le> b \<and> b \<le> 239 then Some (2, 128, 191)
      else if b = 240 then Some (3, 144, 191)
      else if 241 \<le> b \<and> b \<le> 243 then Some (3, 128, 191)
      else if b = 244 then Some (3, 128, 143)
      else None)"

definition char_width :: "char \<Rightarrow> nat" where
  "char_width c = (case utf8_tail (of_char c) of None \<Rightarrow> 1 | Some (n, lo, hi) \<Rightarrow> Suc n)"

function str_chars :: "string \<Rightarrow> string list" where
  "str_chars [] = []"
| "str_chars (c # s) =
     take (char_width c) (c # s) # str_chars (drop (char_width c) (c # s))"
  by pat_completeness auto
termination
  by (relation "measure length") (auto simp: char_width_def split: option.splits)

definition str_tail :: "string \<Rightarrow> string" where
  "str_tail s = concat (drop 1 (str_chars s))"

text \<open>
  Equality of a looked-up key with a stored key, as \<^verbatim>\<open>dict\<close> and \<^verbatim>\<open>list\<close> membership
  use it: \<^verbatim>\<open>True == 1\<close> and \<^verbatim>\<open>False == 0\<close> in Python, which is why the source finds
  YAML's \<^verbatim>\<open>on:\<close> key under \<^verbatim>\<open>data[True]\<close>. The looked-up key is always a scalar in
  this program.
\<close>

fun key_eq :: "pyval \<Rightarrow> pyval \<Rightarrow> bool" where
  "key_eq (PBool b) v = (v = PBool b \<or> v = PInt (if b then 1 else 0))"
| "key_eq (PInt i) v = (v = PInt i \<or> (i = 1 \<and> v = PBool True) \<or> (i = 0 \<and> v = PBool False))"
| "key_eq k v = (v = k)"

fun hashable :: "pyval \<Rightarrow> bool" where
  "hashable (PList _) = False"
| "hashable (PDict _) = False"
| "hashable _ = True"

fun dict_get :: "(pyval \<times> pyval) list \<Rightarrow> pyval \<Rightarrow> pyval option" where
  "dict_get [] k = None"
| "dict_get ((k', v) # d) k = (if key_eq k k' then Some v else dict_get d k)"

text \<open>\<^verbatim>\<open>xs[i]\<close> on a sequence: a negative index counts from the end.\<close>

definition seq_get :: "'a list \<Rightarrow> int \<Rightarrow> 'a result" where
  "seq_get xs i =
     (if 0 \<le> i \<and> i < int (length xs) then Inr (xs ! nat i)
      else if i < 0 \<and> - int (length xs) \<le> i then Inr (xs ! nat (int (length xs) + i))
      else Inl IndexError)"

text \<open>\<^verbatim>\<open>obj[key]\<close>.\<close>

fun py_getitem :: "pyval \<Rightarrow> pyval \<Rightarrow> pyval result" where
  "py_getitem (PDict d) k =
     (if \<not> hashable k then Inl TypeError
      else case dict_get d k of None \<Rightarrow> Inl KeyError | Some v \<Rightarrow> Inr v)"
| "py_getitem (PList xs) (PInt i) = seq_get xs i"
| "py_getitem (PList xs) (PBool b) = seq_get xs (if b then 1 else 0)"
| "py_getitem (PStr s) (PInt i) = map_sum id PStr (seq_get (str_chars s) i)"
| "py_getitem (PStr s) (PBool b) = map_sum id PStr (seq_get (str_chars s) (if b then 1 else 0))"
| "py_getitem _ _ = Inl TypeError"

text \<open>\<^verbatim>\<open>obj.values()\<close>: only a dict has the method.\<close>

fun py_values :: "pyval \<Rightarrow> pyval list result" where
  "py_values (PDict d) = Inr (map snd d)"
| "py_values _ = Inl AttributeError"

text \<open>
  \<^verbatim>\<open>for x in obj\<close>: the elements of a list, the keys of a dict, the characters of a
  string.
\<close>

fun py_iter :: "pyval \<Rightarrow> pyval list result" where
  "py_iter (PList xs) = Inr xs"
| "py_iter (PDict d) = Inr (map fst d)"
| "py_iter (PStr s) = Inr (map PStr (str_chars s))"
| "py_iter _ = Inl TypeError"

definition is_prefix :: "'a list \<Rightarrow> 'a list \<Rightarrow> bool" where
  "is_prefix xs ys = (take (length xs) ys = xs)"

fun substring :: "'a list \<Rightarrow> 'a list \<Rightarrow> bool" where
  "substring xs [] = (xs = [])"
| "substring xs (y # ys) = (is_prefix xs (y # ys) \<or> substring xs ys)"

text \<open>\<^verbatim>\<open>x in obj\<close>, for a string \<open>x\<close>, the only left operand the source uses.\<close>

fun py_contains :: "string \<Rightarrow> pyval \<Rightarrow> bool result" where
  "py_contains x (PStr s) = Inr (substring x s)"
| "py_contains x (PList xs) = Inr (PStr x \<in> set xs)"
| "py_contains x (PDict d) = Inr (PStr x \<in> fst ` set d)"
| "py_contains x _ = Inl TypeError"

text \<open>The checked cast at the places where parsed data enters a \<^verbatim>\<open>str\<close>-typed slot.\<close>

fun as_str :: "pyval \<Rightarrow> string result" where
  "as_str (PStr s) = Inr s"
| "as_str _ = Inl IllTyped"

text \<open>\<^verbatim>\<open>str(n)\<close> for a length, as the f-strings of the debug messages format it.\<close>

fun digit_char :: "nat \<Rightarrow> char" where
  "digit_char n = char_of (48 + n)"

function str_of_nat :: "nat \<Rightarrow> string" where
  "str_of_nat n = (if n < 10 then [digit_char n] else str_of_nat (n div 10) @ [digit_char (n mod 10)])"
  by pat_completeness auto
termination
  by (relation "measure id") auto

declare str_of_nat.simps [simp del]

text \<open>
  A \<^verbatim>\<open>Dict[str, str]\<close>: keys in insertion order. \<^verbatim>\<open>d[k] = v\<close> replaces the value of
  a key that is present, in place, and appends a new key.
\<close>

type_synonym strdict = "(string \<times> string) list"

fun dict_set :: "strdict \<Rightarrow> string \<Rightarrow> string \<Rightarrow> strdict" where
  "dict_set [] k v = [(k, v)]"
| "dict_set ((k', v') # d) k v = (if k' = k then (k, v) # d else (k', v') # dict_set d k v)"

definition and_then :: "'a result \<Rightarrow> ('a \<Rightarrow> 'b result) \<Rightarrow> 'b result" where
  "and_then r f = (case r of Inl e \<Rightarrow> Inl e | Inr v \<Rightarrow> f v)"

section \<open>The collaborators\<close>

text \<open>
  The working copy, the parsers, the clock, the Git accessor (\<^verbatim>\<open>self._git\<close>), the
  package repository and the registry on GitHub (\<^verbatim>\<open>self._repo\<close>, \<^verbatim>\<open>self._registry\<close>)
  and the changelog generator are outside \<^verbatim>\<open>repo.py\<close>. What they answer is a
  parameter of every function below.

  An entry of \<^verbatim>\<open>.github/workflows\<close> is a directory, a file that \<^verbatim>\<open>open\<close> refuses,
  or a file with its text.
\<close>

datatype dir_entry = Directory | Unreadable | File string

record env =
  isfile :: "string \<Rightarrow> bool"
    \<comment> \<open>\<^verbatim>\<open>os.path.isfile(self._git.path(name))\<close>\<close>
  read_file :: "string \<Rightarrow> string option"
    \<comment> \<open>the text behind \<^verbatim>\<open>open(self._git.path(name))\<close>; \<open>None\<close>: \<^verbatim>\<open>OSError\<close>\<close>
  listdir_workflows :: "(string \<times> dir_entry) list option"
    \<comment> \<open>\<^verbatim>\<open>os.listdir\<close> of \<^verbatim>\<open>.github/workflows\<close>, each name with what is there;
        \<open>None\<close>: the directory cannot be listed and \<^verbatim>\<open>os.listdir\<close> raises\<close>
  toml_loads :: "string \<Rightarrow> pyval option"
    \<comment> \<open>\<open>None\<close>: \<^verbatim>\<open>TomlDecodeError\<close>\<close>
  yaml_safe_load :: "string \<Rightarrow> pyval option"
    \<comment> \<open>\<open>None\<close>: \<^verbatim>\<open>YAMLError\<close>\<close>
  builtin_str :: "pyval \<Rightarrow> string"
    \<comment> \<open>\<^verbatim>\<open>str(x)\<close> for an \<open>x\<close> that is not itself a \<^verbatim>\<open>str\<close>\<close>
  croniter :: "string \<Rightarrow> (int \<times> int) option"
    \<comment> \<open>\<^verbatim>\<open>get_next()\<close>, then \<^verbatim>\<open>get_prev()\<close>, of \<^verbatim>\<open>croniter(expr)\<close>, in seconds
        (cron firings fall on whole seconds); \<open>None\<close>: the expression is refused\<close>
  now :: int
    \<comment> \<open>\<^verbatim>\<open>datetime.now()\<close>, in seconds\<close>
  git_commit_sha_of_tree :: "string \<Rightarrow> string option"
  git_invalid_tag_exists :: "string \<Rightarrow> string \<Rightarrow> bool"
  git_fetch_branch :: "string \<Rightarrow> bool"
  git_can_fast_forward :: "string \<Rightarrow> bool"
  git_commit_sha_of_default :: string
  repo_get_release :: "string \<Rightarrow> unit result"
  repo_default_branch :: string
  changelog_get :: "string \<Rightarrow> string \<Rightarrow> string"
  registry_get_contents :: "string \<Rightarrow> string option \<Rightarrow> string result"
    \<comment> \<open>path and \<^verbatim>\<open>ref\<close>; the decoded text of the file\<close>
  registry_get_commits :: "int \<Rightarrow> string list"
    \<comment> \<open>the SHAs of \<^verbatim>\<open>get_commits(until=...)\<close>, most recent first\<close>

text \<open>
  Every call of a method of a collaborator object and every call of a logger
  (\<^verbatim>\<open>debug\<close>, \<^verbatim>\<open>info\<close>, \<^verbatim>\<open>warn\<close>, \<^verbatim>\<open>error\<close>) is recorded, in program order, as the
  mocks of \<^verbatim>\<open>test_repo.py\<close> record them. A call that only asks returns what \<open>env\<close>
  says; its exceptions are modelled where the source handles them
  (\<^verbatim>\<open>get_release\<close>, \<^verbatim>\<open>get_contents\<close>), the other calls are taken to return.
\<close>

datatype call =
    Debug string
  | Info string
  | Warn string
  | Error string
  | Git_commit_sha_of_tree string
  | Git_invalid_tag_exists string string
  | Git_fetch_branch string
  | Git_can_fast_forward string
  | Git_merge_and_delete_branch string
  | Git_commit_sha_of_default
  | Git_create_tag string string bool
  | Repo_get_release string
  | Repo_create_pull string string string string
  | Repo_create_git_release string string string string
  | Changelog_get string string
  | Registry_get_contents string "string option"
  | Registry_get_commits int

section \<open>The class \<^verbatim>\<open>Repo\<close>\<close>

text \<open>
  The fields of \<^verbatim>\<open>self\<close> that the methods read or write, and the calls made so far.
  \<^verbatim>\<open>__init__\<close> leaves the three cache slots at \<^verbatim>\<open>None\<close>.
\<close>

record repo =
  ssh :: bool
  gpg :: bool
  cached_project :: "pyval option"
  cached_registry_path :: "string option"
  cached_lookback :: "int option"
  calls :: "call list"

definition init :: "bool \<Rightarrow> bool \<Rightarrow> repo" where
  "init ssh_flag gpg_flag =
     \<lparr>ssh = ssh_flag, gpg = gpg_flag, cached_project = None,
      cached_registry_path = None, cached_lookback = None, calls = []\<rparr>"

definition emit :: "call \<Rightarrow> repo \<Rightarrow> repo" where
  "emit c s = s\<lparr>calls := calls s @ [c]\<rparr>"

subsection \<open>\<^verbatim>\<open>_project\<close>\<close>

definition py_str :: "env \<Rightarrow> pyval \<Rightarrow> string" where
  "py_str env v = (case v of PStr s \<Rightarrow> s | _ \<Rightarrow> builtin_str env v)"

fun project_files :: "env \<Rightarrow> string \<Rightarrow> string list \<Rightarrow> repo \<Rightarrow> string result \<times> repo" where
  "project_files env k [] s = (Inl (Abort ''Project file was not found''), s)"
| "project_files env k (name # names) s =
     (if isfile env name then
        (case read_file env name of
           None \<Rightarrow> (Inl OSError, s)
         | Some text \<Rightarrow>
             (case toml_loads env text of
                None \<Rightarrow> (Inl TomlDecodeError, s)
              | Some p \<Rightarrow>
                  (map_sum id (py_str env) (py_getitem p (PStr k)),
                   s\<lparr>cached_project := Some p\<rparr>)))
      else project_files env k names s)"

definition project :: "env \<Rightarrow> string \<Rightarrow> repo \<Rightarrow> string result \<times> repo" where
  "project env k s =
     (case cached_project s of
        Some p \<Rightarrow> (map_sum id (py_str env) (py_getitem p (PStr k)), s)
      | None \<Rightarrow> project_files env k [''Project.toml'', ''JuliaProject.toml''] s)"

subsection \<open>\<^verbatim>\<open>_registry_path\<close>\<close>

definition registry_path :: "env \<Rightarrow> repo \<Rightarrow> string option result \<times> repo" where
  "registry_path env s =
     (case cached_registry_path s of
        Some p \<Rightarrow> (Inr (Some p), s)
      | None \<Rightarrow>
          (let s1 = emit (Registry_get_contents ''Registry.toml'' None) s in
           case registry_get_contents env ''Registry.toml'' None of
             Inl e \<Rightarrow> (Inl e, s1)
           | Inr text \<Rightarrow>
               (case toml_loads env text of
                  None \<Rightarrow> (Inl TomlDecodeError, s1)
                | Some registry \<Rightarrow>
                    (case project env ''uuid'' s1 of
                       (Inl e, s2) \<Rightarrow> (Inl e, s2)
                     | (Inr uuid, s2) \<Rightarrow>
                         (case and_then (py_getitem registry (PStr ''packages''))
                                 (\<lambda>packages. and_then (py_contains uuid packages)
                                    (\<lambda>found. if found
                                       then and_then (py_getitem packages (PStr uuid))
                                              (\<lambda>package. and_then (py_getitem package (PStr ''path''))
                                                 (\<lambda>p. map_sum id Some (as_str p)))
                                       else Inr None)) of
                            Inl e \<Rightarrow> (Inl e, s2)
                          | Inr None \<Rightarrow> (Inr None, s2)
                          | Inr (Some p) \<Rightarrow> (Inr (Some p), s2\<lparr>cached_registry_path := Some p\<rparr>))))))"

subsection \<open>\<^verbatim>\<open>_lookback\<close>\<close>

text \<open>A \<^verbatim>\<open>timedelta(days, seconds, hours)\<close>, as its number of seconds.\<close>

definition timedelta :: "int \<Rightarrow> int \<Rightarrow> int \<Rightarrow> int" where
  "timedelta days seconds hours = days * 86400 + seconds + hours * 3600"

definition default_lookback :: int where
  "default_lookback = timedelta 3 0 1"

text \<open>
  \<^verbatim>\<open>croniter(data[True]["schedule"][0]["cron"])\<close> and
  \<^verbatim>\<open>cron.get_next() - cron.get_prev()\<close>.
\<close>

definition cron_seconds :: "env \<Rightarrow> pyval \<Rightarrow> int result" where
  "cron_seconds env data =
     and_then (py_getitem data (PBool True)) (\<lambda>on.
     and_then (py_getitem on (PStr ''schedule'')) (\<lambda>schedule.
     and_then (py_getitem schedule (PInt 0)) (\<lambda>entry.
     and_then (py_getitem entry (PStr ''cron'')) (\<lambda>expr.
       case expr of
         PStr c \<Rightarrow>
           (case croniter env c of
              None \<Rightarrow> Inl CroniterError
            | Some (nxt, prv) \<Rightarrow> Inr (nxt - prv))
       | _ \<Rightarrow> Inl AttributeError))))"

text \<open>
  The two inner loops. \<open>Inr (Some seconds)\<close> is the \<^verbatim>\<open>return\<close> from inside them,
  \<open>Inr None\<close> a loop that ran to its end, \<open>Inl e\<close> an exception on the way.
\<close>

fun scan_steps :: "env \<Rightarrow> pyval \<Rightarrow> pyval list \<Rightarrow> int option result" where
  "scan_steps env data [] = Inr None"
| "scan_steps env data (step # steps) =
     and_then (py_getitem step (PStr ''uses'')) (\<lambda>uses.
     and_then (py_contains ''TagBot'' uses) (\<lambda>found.
       if found then map_sum id Some (cron_seconds env data)
       else scan_steps env data steps))"

fun scan_jobs :: "env \<Rightarrow> pyval \<Rightarrow> pyval list \<Rightarrow> int option result" where
  "scan_jobs env data [] = Inr None"
| "scan_jobs env data (job # jobs) =
     and_then (py_getitem job (PStr ''steps'')) (\<lambda>steps_obj.
     and_then (py_iter steps_obj) (\<lambda>steps.
     and_then (scan_steps env data steps) (\<lambda>r.
       case r of
         Some seconds \<Rightarrow> Inr (Some seconds)
       | None \<Rightarrow> scan_jobs env data jobs)))"

text \<open>The body of the \<^verbatim>\<open>try\<close>, for one entry of the directory.\<close>

definition scan_workflow :: "env \<Rightarrow> dir_entry \<Rightarrow> int option result" where
  "scan_workflow env entry =
     (case entry of
        Directory \<Rightarrow> Inl OSError
      | Unreadable \<Rightarrow> Inl OSError
      | File text \<Rightarrow>
          (case yaml_safe_load env text of
             None \<Rightarrow> Inl YAMLError
           | Some data \<Rightarrow>
               and_then (py_getitem data (PStr ''jobs'')) (\<lambda>jobs_obj.
               and_then (py_values jobs_obj) (\<lambda>jobs.
                 scan_jobs env data jobs))))"

text \<open>
  The loop over the directory: a directory is skipped, and the bare \<^verbatim>\<open>except\<close>
  turns every exception of the body into a step to the next entry.
\<close>

fun lookback_loop :: "env \<Rightarrow> (string \<times> dir_entry) list \<Rightarrow> int option" where
  "lookback_loop env [] = None"
| "lookback_loop env ((workflow, entry) # rest) =
     (if entry = Directory then lookback_loop env rest
      else case scan_workflow env entry of
             Inr (Some seconds) \<Rightarrow> Some seconds
           | Inr None \<Rightarrow> lookback_loop env rest
           | Inl e \<Rightarrow> lookback_loop env rest)"

definition lookback :: "env \<Rightarrow> repo \<Rightarrow> int result \<times> repo" where
  "lookback env s =
     (case cached_lookback s of
        Some d \<Rightarrow> (Inr d, s)
      | None \<Rightarrow>
          (case listdir_workflows env of
             None \<Rightarrow> (Inl OSError, s)
           | Some entries \<Rightarrow>
               (case lookback_loop env entries of
                  Some seconds \<Rightarrow>
                    (let d = max (timedelta 0 (seconds * 3) 1) default_lookback
                     in (Inr d, s\<lparr>cached_lookback := Some d\<rparr>))
                | None \<Rightarrow> (Inr default_lookback, s))))"

subsection \<open>\<^verbatim>\<open>_release_exists\<close> and \<^verbatim>\<open>_create_release_branch_pr\<close>\<close>

definition release_exists :: "env \<Rightarrow> string \<Rightarrow> repo \<Rightarrow> bool result \<times> repo" where
  "release_exists env version s =
     (let s1 = emit (Repo_get_release version) s in
      case repo_get_release env version of
        Inr _ \<Rightarrow> (Inr True, s1)
      | Inl e \<Rightarrow> (if e = UnknownObjectException then (Inr False, s1) else (Inl e, s1)))"

definition create_release_branch_pr :: "env \<Rightarrow> string \<Rightarrow> string \<Rightarrow> repo \<Rightarrow> repo" where
  "create_release_branch_pr env version branch s =
     emit (Repo_create_pull (''Merge release branch for '' @ version) [] branch
             (repo_default_branch env)) s"

subsection \<open>\<^verbatim>\<open>_filter_map_versions\<close>\<close>

text \<open>
  The loop over \<^verbatim>\<open>versions.items()\<close>, with the dict \<^verbatim>\<open>valid\<close> built so far.
  \<^verbatim>\<open>not sha\<close> holds for \<^verbatim>\<open>None\<close> and for the empty string.
\<close>

fun filter_map_versions_loop ::
  "env \<Rightarrow> strdict \<Rightarrow> strdict \<Rightarrow> repo \<Rightarrow> strdict result \<times> repo" where
  "filter_map_versions_loop env [] valid s = (Inr valid, s)"
| "filter_map_versions_loop env ((key, tree) # rest) valid s =
     (let version = ''v'' @ key;
          s1 = emit (Git_commit_sha_of_tree tree) s;
          no_commit = emit (Warn (''No matching commit was found for version '' @ version
                                  @ '' ('' @ tree @ '')'')) s1
      in case git_commit_sha_of_tree env tree of
           None \<Rightarrow> filter_map_versions_loop env rest valid no_commit
         | Some sha \<Rightarrow>
             if sha = [] then filter_map_versions_loop env rest valid no_commit
             else
               (let s2 = emit (Git_invalid_tag_exists version sha) s1 in
                if git_invalid_tag_exists env version sha then
                  filter_map_versions_loop env rest valid
                    (emit (Error (''Existing tag '' @ version
                                  @ '' points at the wrong commit (expected '' @ sha @ '')'')) s2)
                else
                  (case release_exists env version s2 of
                     (Inl e, s3) \<Rightarrow> (Inl e, s3)
                   | (Inr True, s3) \<Rightarrow>
                       filter_map_versions_loop env rest valid
                         (emit (Info (''Release '' @ version @ '' already exists'')) s3)
                   | (Inr False, s3) \<Rightarrow>
                       filter_map_versions_loop env rest (dict_set valid version sha) s3)))"

definition filter_map_versions :: "env \<Rightarrow> strdict \<Rightarrow> repo \<Rightarrow> strdict result \<times> repo" where
  "filter_map_versions env versions s = filter_map_versions_loop env versions [] s"

subsection \<open>\<^verbatim>\<open>_versions\<close>\<close>

text \<open>
  The comprehension \<^verbatim>\<open>{v: versions[v]["git-tree-sha1"] for v in versions}\<close> over the
  keys of the parsed file, with the dict built so far.
\<close>

fun tree_shas :: "pyval \<Rightarrow> pyval list \<Rightarrow> strdict \<Rightarrow> strdict result" where
  "tree_shas versions [] d = Inr d"
| "tree_shas versions (v # vs) d =
     and_then (as_str v) (\<lambda>key.
     and_then (py_getitem versions v) (\<lambda>entry.
     and_then (py_getitem entry (PStr ''git-tree-sha1'')) (\<lambda>t.
     and_then (as_str t) (\<lambda>tree.
       tree_shas versions vs (dict_set d key tree)))))"

text \<open>\<^verbatim>\<open>f"{root}"\<close> for the \<^verbatim>\<open>Optional[str]\<close> that \<^verbatim>\<open>_registry_path\<close> returns.\<close>

definition format_root :: "string option \<Rightarrow> string" where
  "format_root root = (case root of None \<Rightarrow> ''None'' | Some p \<Rightarrow> p)"

text \<open>From \<^verbatim>\<open>root = self._registry_path\<close> on; \<open>ref\<close> is \<^verbatim>\<open>kwargs\<close>.\<close>

definition read_versions :: "env \<Rightarrow> string option \<Rightarrow> repo \<Rightarrow> strdict result \<times> repo" where
  "read_versions env ref s =
     (case registry_path env s of
        (Inl e, s1) \<Rightarrow> (Inl e, s1)
      | (Inr root, s1) \<Rightarrow>
          (let path = format_root root @ ''/Versions.toml'';
               s2 = emit (Registry_get_contents path ref) s1
           in case registry_get_contents env path ref of
                Inl e \<Rightarrow>
                  (if e = UnknownObjectException
                   then (Inr [], emit (Debug ''Versions.toml was not found'') s2)
                   else (Inl e, s2))
              | Inr text \<Rightarrow>
                  (case toml_loads env text of
                     None \<Rightarrow> (Inl TomlDecodeError, s2)
                   | Some versions \<Rightarrow>
                       (and_then (py_iter versions) (\<lambda>keys. tree_shas versions keys []), s2))))"

text \<open>\<^verbatim>\<open>if min_age\<close>: a \<^verbatim>\<open>timedelta\<close> is true unless it is zero.\<close>

definition truthy :: "int option \<Rightarrow> bool" where
  "truthy min_age = (case min_age of None \<Rightarrow> False | Some d \<Rightarrow> d \<noteq> 0)"

definition versions :: "env \<Rightarrow> int option \<Rightarrow> repo \<Rightarrow> strdict result \<times> repo" where
  "versions env min_age s =
     (if truthy min_age then
        (let until = now env - the min_age;
             s1 = emit (Registry_get_commits until) s
         in case registry_get_commits env until of
              [] \<Rightarrow> (Inr [], emit (Debug ''No registry commits were found'') s1)
            | commit # _ \<Rightarrow> read_versions env (Some commit) s1)
      else read_versions env None s)"

subsection \<open>\<^verbatim>\<open>new_versions\<close>\<close>

text \<open>The comprehension \<^verbatim>\<open>{k: v for k, v in current.items() if k not in old}\<close>.\<close>

definition not_in_old :: "strdict \<Rightarrow> strdict \<Rightarrow> strdict" where
  "not_in_old current old = filter (\<lambda>(k, v). k \<notin> set (map fst old)) current"

definition new_versions :: "env \<Rightarrow> repo \<Rightarrow> strdict result \<times> repo" where
  "new_versions env s =
     (case versions env None s of
        (Inl e, s1) \<Rightarrow> (Inl e, s1)
      | (Inr current, s1) \<Rightarrow>
          (let s2 = emit (Debug (''There are '' @ str_of_nat (length current)
                                 @ '' total versions'')) s1
           in case lookback env s2 of
                (Inl e, s3) \<Rightarrow> (Inl e, s3)
              | (Inr window, s3) \<Rightarrow>
                  (case versions env (Some window) s3 of
                     (Inl e, s4) \<Rightarrow> (Inl e, s4)
                   | (Inr old, s4) \<Rightarrow>
                       (let s5 = emit (Debug (''There are '' @ str_of_nat (length old)
                                              @ '' new versions'')) s4
                        in filter_map_versions env (not_in_old current old) s5))))"

subsection \<open>\<^verbatim>\<open>handle_release_branch\<close> and \<^verbatim>\<open>create_release\<close>\<close>

definition handle_release_branch :: "env \<Rightarrow> string \<Rightarrow> repo \<Rightarrow> repo" where
  "handle_release_branch env version s =
     (let branch = ''release-'' @ str_tail version;
          s1 = emit (Git_fetch_branch branch) s
      in if \<not> git_fetch_branch env branch then
           emit (Info (''Release branch '' @ branch @ '' does not exist'')) s1
         else
           (let s2 = emit (Git_can_fast_forward branch) s1 in
            if git_can_fast_forward env branch then
              emit (Git_merge_and_delete_branch branch)
                (emit (Info ''Release branch can be fast-forwarded'') s2)
            else
              create_release_branch_pr env version branch
                (emit (Info ''Release branch cannot be fast-forwarded, creating pull request'')
                   s2)))"

definition create_release :: "env \<Rightarrow> string \<Rightarrow> string \<Rightarrow> repo \<Rightarrow> repo" where
  "create_release env version sha s =
     (let s1 = emit Git_commit_sha_of_default s;
          target = (if git_commit_sha_of_default env = sha then repo_default_branch env else sha);
          s2 = emit (Debug (''Release '' @ version @ '' target: '' @ target)) s1;
          s3 = emit (Changelog_get version sha) s2;
          log = changelog_get env version sha;
          s4 = (if ssh s \<or> gpg s then
                  emit (Git_create_tag version sha (gpg s))
                    (emit (Info (''Manually creating tag '' @ version)) s3)
                else s3);
          s5 = emit (Info (''Creating release '' @ version @ '' at '' @ sha)) s4
      in emit (Repo_create_git_release version version log target) s5)"

subsection \<open>\<^verbatim>\<open>_maybe_b64\<close>\<close>

text \<open>
  \<^verbatim>\<open>b64decode(val, validate=True)\<close> and \<^verbatim>\<open>bytes.decode()\<close> belong to Python's
  library; they are written out here, after CPython 3.11, because the claim about
  \<^verbatim>\<open>_maybe_b64\<close> is a claim about what they raise. Bytes are \<^typ>\<open>char\<close>s.

  \<^verbatim>\<open>b64decode\<close> of a \<^verbatim>\<open>str\<close> first encodes it as ASCII and raises \<^verbatim>\<open>ValueError\<close> when
  a character is not ASCII. The strict decoder then raises \<^verbatim>\<open>binascii.Error\<close> unless
  the text is base64 digits followed by \<^verbatim>\<open>=\<close> signs only, with a number of digits and
  of signs that fit each other.
\<close>

definition b64_alphabet :: string where
  "b64_alphabet = ''ABCDEFGHIJKLMNOPQRSTUVWXYZabcdefghijklmnopqrstuvwxyz0123456789+/''"

fun index_of :: "'a \<Rightarrow> 'a list \<Rightarrow> nat option" where
  "index_of x [] = None"
| "index_of x (y # ys) = (if x = y then Some 0 else map_option Suc (index_of x ys))"

text \<open>Four digits of six bits are three bytes; three digits are two, two are one.\<close>

fun b64_bytes :: "nat list \<Rightarrow> string" where
  "b64_bytes (a # b # c # d # rest) =
     (let n = a * 262144 + b * 4096 + c * 64 + d
      in char_of (n div 65536) # char_of (n div 256 mod 256) # char_of (n mod 256)
         # b64_bytes rest)"
| "b64_bytes [a, b, c] =
     (let n = a * 4096 + b * 64 + c in [char_of (n div 1024), char_of (n div 4 mod 256)])"
| "b64_bytes [a, b] = [char_of ((a * 64 + b) div 16)]"
| "b64_bytes digits = []"

definition b64decode :: "string \<Rightarrow> string result" where
  "b64decode val =
     (if list_ex (\<lambda>c. 128 \<le> (of_char c :: nat)) val then Inl ValueError
      else
        (let data = takeWhile (\<lambda>c. c \<noteq> CHR ''='') val;
             padding = dropWhile (\<lambda>c. c \<noteq> CHR ''='') val
         in case those (map (\<lambda>c. index_of c b64_alphabet) data) of
              None \<Rightarrow> Inl BinasciiError
            | Some digits \<Rightarrow>
                if \<not> list_all (\<lambda>c. c = CHR ''='') padding then Inl BinasciiError
                else if data = [] \<and> padding \<noteq> [] then Inl BinasciiError
                else if length data mod 4 = 1 then Inl BinasciiError
                else if length data mod 4 = 2 \<and> length padding \<noteq> 2 then Inl BinasciiError
                else if length data mod 4 = 3 \<and> length padding \<noteq> 1 then Inl BinasciiError
                else Inr (b64_bytes digits)))"

text \<open>
  \<^verbatim>\<open>bytes.decode()\<close> is the strict UTF-8 decoder: it raises \<^verbatim>\<open>UnicodeDecodeError\<close>
  unless the bytes are well-formed UTF-8: after a lead byte beyond ASCII come as many
  bytes as \<open>utf8_tail\<close> says, the first of them in the range it gives, the others
  in the range 128 to 191.
\<close>

function utf8_valid :: "nat list \<Rightarrow> bool" where
  "utf8_valid [] = True"
| "utf8_valid (b # bs) =
     (if b < 128 then utf8_valid bs
      else case utf8_tail b of
             None \<Rightarrow> False
           | Some (n, lo, hi) \<Rightarrow>
               n \<le> length bs \<and> lo \<le> hd bs \<and> hd bs \<le> hi
               \<and> list_all (\<lambda>c. 128 \<le> c \<and> c \<le> 191) (take (n - 1) (tl bs))
               \<and> utf8_valid (drop n bs))"
  by pat_completeness auto
termination
  by (relation "measure length") auto

text \<open>
  The method itself: only \<^verbatim>\<open>binascii.Error\<close> is caught. Since a \<^verbatim>\<open>str\<close> is held as
  its UTF-8 bytes, the decoded \<^verbatim>\<open>str\<close> is the decoded bytes.
\<close>

definition maybe_b64 :: "string \<Rightarrow> string result" where
  "maybe_b64 val =
     (case b64decode val of
        Inl e \<Rightarrow> (if e = BinasciiError then Inr val else Inl e)
      | Inr bytes \<Rightarrow>
          if utf8_valid (map of_char bytes) then Inr bytes else Inl UnicodeDecodeError)"

section \<open>Fixtures\<close>

text \<open>
  The collaborators of \<^verbatim>\<open>test_repo.py\<close>, as values of \<^typ>\<open>env\<close>. \<open>quiet_env\<close> is a
  world where nothing exists; each test changes the answers it mocks.
\<close>

definition quiet_env :: env where
  "quiet_env =
     \<lparr>isfile = (\<lambda>name. False),
      read_file = (\<lambda>name. None),
      listdir_workflows = Some [],
      toml_loads = (\<lambda>text. None),
      yaml_safe_load = (\<lambda>text. None),
      builtin_str = (\<lambda>v. []),
      croniter = (\<lambda>expr. None),
      now = 0,
      git_commit_sha_of_tree = (\<lambda>tree. None),
      git_invalid_tag_exists = (\<lambda>version sha. False),
      git_fetch_branch = (\<lambda>branch. False),
      git_can_fast_forward = (\<lambda>branch. False),
      git_commit_sha_of_default = [],
      repo_get_release = (\<lambda>version. Inl UnknownObjectException),
      repo_default_branch = [],
      changelog_get = (\<lambda>version sha. []),
      registry_get_contents = (\<lambda>path ref. Inl UnknownObjectException),
      registry_get_commits = (\<lambda>until. [])\<rparr>"

text \<open>\<^verbatim>\<open>test_new_versions\<close>: the two snapshots.\<close>

definition test_current :: strdict where
  "test_current = [(''1.2.3'', ''abc''), (''2.3.4'', ''bcd'')]"

definition test_old :: strdict where
  "test_old = [(''1.2.3'', ''abc'')]"

text \<open>
  \<^verbatim>\<open>test_handle_release_branch\<close>: the branch of \<^verbatim>\<open>v1\<close> is absent, that of \<^verbatim>\<open>v2\<close>
  can be fast-forwarded, that of \<^verbatim>\<open>v3\<close> cannot.
\<close>

definition test_branch_env :: env where
  "test_branch_env =
     quiet_env\<lparr>git_fetch_branch := (\<lambda>branch. branch \<noteq> ''release-1''),
               git_can_fast_forward := (\<lambda>branch. branch = ''release-2''),
               repo_default_branch := ''default''\<rparr>"

text \<open>\<^verbatim>\<open>test_create_release\<close>: the default branch \<^verbatim>\<open>default\<close> is at commit \<^verbatim>\<open>a\<close>.\<close>

definition test_release_env :: env where
  "test_release_env =
     quiet_env\<lparr>git_commit_sha_of_default := ''a'',
               repo_default_branch := ''default'',
               changelog_get := (\<lambda>version sha. ''log'')\<rparr>"

text \<open>
  \<^verbatim>\<open>test_filter_map_versions\<close>: the tree \<^verbatim>\<open>abc\<close> has no commit, every other tree has
  the commit \<^verbatim>\<open>sha\<close>; the tag \<^verbatim>\<open>v2.3.4\<close> is on another commit; the release
  \<^verbatim>\<open>v3.4.5\<close> exists.
\<close>

definition test_versions :: strdict where
  "test_versions =
     [(''1.2.3'', ''abc''), (''2.3.4'', ''bcd''), (''3.4.5'', ''cde''), (''4.5.6'', ''def'')]"

definition test_filter_env :: env where
  "test_filter_env =
     quiet_env\<lparr>git_commit_sha_of_tree := (\<lambda>tree. if tree = ''abc'' then None else Some ''sha''),
               git_invalid_tag_exists := (\<lambda>version sha. version = ''v2.3.4''),
               repo_get_release :=
                 (\<lambda>version. if version = ''v3.4.5'' then Inr () else Inl UnknownObjectException)\<rparr>"

text \<open>
  \<^verbatim>\<open>test_lookback\<close>: one workflow file, \<^verbatim>\<open>TagBot.yml\<close>. \<open>tagbot_workflow cron\<close> is what
  \<^verbatim>\<open>yaml.safe_load\<close> makes of the test's document with that cron expression (the key
  \<^verbatim>\<open>on\<close> parses to \<^verbatim>\<open>True\<close>). The texts \<^verbatim>\<open>hourly\<close> and \<^verbatim>\<open>every five days\<close> stand for
  the document with \<^verbatim>\<open>0 * * * *\<close> and with \<^verbatim>\<open>0 0 */5 * *\<close>; \<^verbatim>\<open>some other stuff\<close> is
  the third text of the test, which parses to a string. The firings of the two
  schedules are an hour and five days apart.
\<close>

definition tagbot_workflow :: "string \<Rightarrow> pyval" where
  "tagbot_workflow cron =
     PDict
       [(PBool True, PDict [(PStr ''schedule'', PList [PDict [(PStr ''cron'', PStr cron)]])]),
        (PStr ''jobs'',
         PDict [(PStr ''TagBot'',
                 PDict [(PStr ''steps'',
                         PList [PDict [(PStr ''uses'', PStr ''JuliaRegistries/TagBot@v1'')]])])])]"

definition test_lookback_env :: "string \<Rightarrow> env" where
  "test_lookback_env text =
     quiet_env\<lparr>listdir_workflows := Some [(''TagBot.yml'', File text)],
               yaml_safe_load :=
                 (\<lambda>text. if text = ''hourly'' then Some (tagbot_workflow ''0 * * * *'')
                         else if text = ''every five days'' then Some (tagbot_workflow ''0 0 */5 * *'')
                         else if text = ''some other stuff'' then Some (PStr ''some other stuff'')
                         else None),
               croniter :=
                 (\<lambda>expr. if expr = ''0 * * * *'' then Some (7200, 3600)
                         else if expr = ''0 0 */5 * *'' then Some (864000, 432000)
                         else None)\<rparr>"

text \<open>
  A directory of workflows none of which gives a schedule: a subdirectory, a file that
  cannot be opened, a file that is not YAML, and a file whose YAML is a plain string.
\<close>

definition fallback_entries :: "(string \<times> dir_entry) list" where
  "fallback_entries =
     [(''templates'', Directory), (''locked.yml'', Unreadable),
      (''broken.yml'', File ''{''), (''notes.yml'', File ''some other stuff'')]"

definition fallback_env :: env where
  "fallback_env =
     quiet_env\<lparr>listdir_workflows := Some fallback_entries,
               yaml_safe_load :=
                 (\<lambda>text. if text = ''some other stuff'' then Some (PStr ''some other stuff'')
                         else None)\<rparr>"

text \<open>A working copy without the directory \<^verbatim>\<open>.github/workflows\<close>.\<close>

definition no_workflows_env :: env where
  "no_workflows_env = quiet_env\<lparr>listdir_workflows := None\<rparr>"

text \<open>
  \<^verbatim>\<open>test_project\<close> and \<^verbatim>\<open>test_registry_path\<close>: a package with the identifier
  \<^verbatim>\<open>abc-def\<close>, and a registry whose index holds the given packages. The texts
  \<^verbatim>\<open>project\<close> and \<^verbatim>\<open>registry\<close> stand for the two TOML files.
\<close>

definition registry_env :: "(pyval \<times> pyval) list \<Rightarrow> env" where
  "registry_env packages =
     quiet_env\<lparr>isfile := (\<lambda>name. name = ''Project.toml''),
               read_file := (\<lambda>name. if name = ''Project.toml'' then Some ''project'' else None),
               toml_loads :=
                 (\<lambda>text. if text = ''project''
                           then Some (PDict [(PStr ''name'', PStr ''FooBar''),
                                             (PStr ''uuid'', PStr ''abc-def'')])
                         else if text = ''registry''
                           then Some (PDict [(PStr ''packages'', PDict packages)])
                         else None),
               registry_get_contents :=
                 (\<lambda>path ref. if path = ''Registry.toml'' then Inr ''registry''
                             else Inl UnknownObjectException)\<rparr>"

definition unregistered_env :: env where
  "unregistered_env = registry_env []"

definition registered_env :: env where
  "registered_env = registry_env [(PStr ''abc-def'', PDict [(PStr ''path'', PStr ''B/Bar'')])]"

text \<open>
  \<^verbatim>\<open>test_versions\<close>: the registry path \<^verbatim>\<open>path\<close> is in the cache slot; the registry has
  the given commits up to any time, and holds or lacks \<^verbatim>\<open>path/Versions.toml\<close>, at every
  reference alike. \<open>versions_toml snapshot\<close> is what \<^verbatim>\<open>toml.loads\<close> makes of a
  \<^verbatim>\<open>Versions.toml\<close> that records the snapshot, a table with the key
  \<^verbatim>\<open>git-tree-sha1\<close> for each version; the text \<^verbatim>\<open>versions\<close> stands for the file of
  the test, which records the two versions of \<open>test_current\<close>.
\<close>

definition path_cached :: repo where
  "path_cached = (init False False)\<lparr>cached_registry_path := Some ''path''\<rparr>"

definition versions_toml :: "strdict \<Rightarrow> pyval" where
  "versions_toml snapshot =
     PDict (map (\<lambda>(v, tree). (PStr v, PDict [(PStr ''git-tree-sha1'', PStr tree)])) snapshot)"

definition versions_env :: "string list \<Rightarrow> bool \<Rightarrow> env" where
  "versions_env commits present =
     quiet_env\<lparr>now := 1000000,
               registry_get_commits := (\<lambda>until. commits),
               registry_get_contents :=
                 (\<lambda>path ref. if present \<and> path = ''path/Versions.toml'' then Inr ''versions''
                             else Inl UnknownObjectException),
               toml_loads :=
                 (\<lambda>text. if text = ''versions'' then Some (versions_toml test_current) else None)\<rparr>"

text \<open>
  A whole run of \<^verbatim>\<open>new_versions\<close> on the snapshots of \<^verbatim>\<open>test_new_versions\<close>: the
  versions file holds \<open>test_current\<close> now (the text \<^verbatim>\<open>current\<close>) and held \<open>test_old\<close>
  at the one commit of the registry (the text \<^verbatim>\<open>old\<close>); there is no workflow file, and
  every tree has a commit.
\<close>

definition test_new_versions_env :: env where
  "test_new_versions_env =
     quiet_env\<lparr>now := 1000000,
               registry_get_commits := (\<lambda>until. [''abcdef'']),
               registry_get_contents :=
                 (\<lambda>path ref. if path = ''path/Versions.toml''
                               then (if ref = None then Inr ''current'' else Inr ''old'')
                             else Inl UnknownObjectException),
               toml_loads :=
                 (\<lambda>text. if text = ''current'' then Some (versions_toml test_current)
                         else if text = ''old'' then Some (versions_toml test_old)
                         else None),
               git_commit_sha_of_tree := (\<lambda>tree. Some (''commit of '' @ tree))\<rparr>"

text \<open>The \<^verbatim>\<open>str\<close> of one character, U+00E9 (e with acute accent), in UTF-8.\<close>

definition e_acute :: string where
  "e_acute = [CHR 0xC3, CHR 0xA9]"

section \<open>What the theorems speak of\<close>

text \<open>The calls made between two states of the same run.\<close>

definition calls_since :: "repo \<Rightarrow> repo \<Rightarrow> call list" where
  "calls_since s s' = drop (length (calls s)) (calls s')"

text \<open>The branch a call works on, for the calls that take one.\<close>

fun branch_of :: "call \<Rightarrow> string option" where
  "branch_of (Git_fetch_branch b) = Some b"
| "branch_of (Git_can_fast_forward b) = Some b"
| "branch_of (Git_merge_and_delete_branch b) = Some b"
| "branch_of (Repo_create_pull title body head base) = Some head"
| "branch_of c = None"

fun is_create_tag :: "call \<Rightarrow> bool" where
  "is_create_tag (Git_create_tag version sha annotate) = True"
| "is_create_tag c = False"

fun is_create_git_release :: "call \<Rightarrow> bool" where
  "is_create_git_release (Repo_create_git_release tag name message target) = True"
| "is_create_git_release c = False"

fun is_log :: "call \<Rightarrow> bool" where
  "is_log (Debug m) = True"
| "is_log (Info m) = True"
| "is_log (Warn m) = True"
| "is_log (Error m) = True"
| "is_log c = False"

text \<open>
  What \<^verbatim>\<open>_filter_map_versions\<close> asks of a pair before it keeps it: the version is a
  key of the candidates with the prefix \<^verbatim>\<open>v\<close>, the tree of that key resolves to the
  commit, no tag of that name is on another commit, and GitHub knows no release of
  that name.
\<close>

definition passes :: "env \<Rightarrow> strdict \<Rightarrow> string \<Rightarrow> string \<Rightarrow> bool" where
  "passes env candidates version sha =
     (\<exists>(key, tree) \<in> set candidates.
        version = ''v'' @ key
        \<and> git_commit_sha_of_tree env tree = Some sha
        \<and> sha \<noteq> []
        \<and> \<not> git_invalid_tag_exists env version sha
        \<and> repo_get_release env version = Inl UnknownObjectException)"

text \<open>The cached lookback, when there is one, is not below the default.\<close>

definition lookback_cache_ok :: "repo \<Rightarrow> bool" where
  "lookback_cache_ok s =
     (case cached_lookback s of None \<Rightarrow> True | Some d \<Rightarrow> default_lookback \<le> d)"

text \<open>
  \<^verbatim>\<open>base64.b64encode\<close>, the encoding that \<^verbatim>\<open>_maybe_b64\<close> is meant to undo: three
  bytes are four digits; a last group of two bytes or of one byte is three or two
  digits, filled up with \<^verbatim>\<open>=\<close> signs.
\<close>

fun sextets :: "nat list \<Rightarrow> nat list" where
  "sextets (a # b # c # rest) =
     (let n = a * 65536 + b * 256 + c
      in n div 262144 # n div 4096 mod 64 # n div 64 mod 64 # n mod 64 # sextets rest)"
| "sextets [a, b] = (let n = a * 1024 + b * 4 in [n div 4096, n div 64 mod 64, n mod 64])"
| "sextets [a] = [a * 16 div 64, a * 16 mod 64]"
| "sextets [] = []"

definition b64encode :: "string \<Rightarrow> string" where
  "b64encode s =
     map (\<lambda>i. b64_alphabet ! i) (sextets (map of_char s))
     @ replicate ((3 - length s mod 3) mod 3) CHR ''=''"

section \<open>Characters of a string\<close>

lemma concat_str_chars: "concat (str_chars s) = s"
  by (induction s rule: str_chars.induct) simp_all

lemma str_tail_Nil: "str_tail [] = []"
  by (simp add: str_tail_def)

lemma str_tail_Cons: "str_tail (c # s) = drop (char_width c) (c # s)"
  by (simp add: str_tail_def concat_str_chars)

lemma char_width_ascii: "(of_char c :: nat) < 128 \<Longrightarrow> char_width c = 1"
  by (simp add: char_width_def utf8_tail_def)

lemma str_tail_ascii: "(of_char c :: nat) < 128 \<Longrightarrow> str_tail (c # s) = s"
  by (simp add: str_tail_Cons char_width_ascii)

lemma str_tail_lead:
  "utf8_tail (of_char c) = Some (n, lo, hi) \<Longrightarrow> length follow = n \<Longrightarrow>
   str_tail (c # follow @ rest) = rest"
  by (simp add: str_tail_Cons char_width_def)

section \<open>Release branches and releases\<close>

lemma calls_since_append [simp]: "calls_since s (s\<lparr>calls := calls s @ cs\<rparr>) = cs"
  by (simp add: calls_since_def)

lemma handle_release_branch_absent:
  "\<not> git_fetch_branch env (''release-'' @ str_tail version) \<Longrightarrow>
   handle_release_branch env version s =
     s\<lparr>calls := calls s @
        [Git_fetch_branch (''release-'' @ str_tail version),
         Info (''Release branch '' @ (''release-'' @ str_tail version) @ '' does not exist'')]\<rparr>"
  by (simp add: handle_release_branch_def emit_def Let_def)

lemma handle_release_branch_fast_forward:
  "git_fetch_branch env (''release-'' @ str_tail version) \<Longrightarrow>
   git_can_fast_forward env (''release-'' @ str_tail version) \<Longrightarrow>
   handle_release_branch env version s =
     s\<lparr>calls := calls s @
        [Git_fetch_branch (''release-'' @ str_tail version),
         Git_can_fast_forward (''release-'' @ str_tail version),
         Info ''Release branch can be fast-forwarded'',
         Git_merge_and_delete_branch (''release-'' @ str_tail version)]\<rparr>"
  by (simp add: handle_release_branch_def emit_def Let_def)

lemma handle_release_branch_diverged:
  "git_fetch_branch env (''release-'' @ str_tail version) \<Longrightarrow>
   \<not> git_can_fast_forward env (''release-'' @ str_tail version) \<Longrightarrow>
   handle_release_branch env version s =
     s\<lparr>calls := calls s @
        [Git_fetch_branch (''release-'' @ str_tail version),
         Git_can_fast_forward (''release-'' @ str_tail version),
         Info ''Release branch cannot be fast-forwarded, creating pull request'',
         Repo_create_pull (''Merge release branch for '' @ version) []
           (''release-'' @ str_tail version) (repo_default_branch env)]\<rparr>"
  by (simp add: handle_release_branch_def create_release_branch_pr_def emit_def Let_def)

lemma create_release_calls:
  "create_release env version sha s =
     s\<lparr>calls := calls s @
        [Git_commit_sha_of_default,
         Debug (''Release '' @ version @ '' target: ''
                @ (if git_commit_sha_of_default env = sha then repo_default_branch env else sha)),
         Changelog_get version sha]
        @ (if ssh s \<or> gpg s
           then [Info (''Manually creating tag '' @ version), Git_create_tag version sha (gpg s)]
           else [])
        @ [Info (''Creating release '' @ version @ '' at '' @ sha),
           Repo_create_git_release version version (changelog_get env version sha)
             (if git_commit_sha_of_default env = sha then repo_default_branch env else sha)]\<rparr>"
  by (simp add: create_release_def emit_def Let_def)

lemma handle_release_branch_flags:
  "ssh (handle_release_branch env version s) = ssh s
   \<and> gpg (handle_release_branch env version s) = gpg s"
  by (simp add: handle_release_branch_def create_release_branch_pr_def emit_def Let_def)

text \<open>
  Claim C5. \<^verbatim>\<open>handle_release_branch\<close> first fetches the conventional branch. When
  the fetch reports it absent, the only thing that follows is the informational
  message: no other branch call. When it is there and can be fast-forwarded, the check
  is followed by the merge-and-delete and by no pull request. When it is there and
  cannot be fast-forwarded, a pull request from the branch into the default branch is
  created and nothing is merged. In each case the method changes nothing else and
  returns, and a \<^verbatim>\<open>create_release\<close> that follows it ends with the creation of the
  release: the release does not wait for the pull request.
\<close>

theorem handle_release_branch_cases:
  "(\<not> git_fetch_branch env (''release-'' @ str_tail version) \<longrightarrow>
      handle_release_branch env version s =
        s\<lparr>calls := calls s @
           [Git_fetch_branch (''release-'' @ str_tail version),
            Info (''Release branch '' @ (''release-'' @ str_tail version) @ '' does not exist'')]\<rparr>)
   \<and> (git_fetch_branch env (''release-'' @ str_tail version)
        \<and> git_can_fast_forward env (''release-'' @ str_tail version) \<longrightarrow>
      handle_release_branch env version s =
        s\<lparr>calls := calls s @
           [Git_fetch_branch (''release-'' @ str_tail version),
            Git_can_fast_forward (''release-'' @ str_tail version),
            Info ''Release branch can be fast-forwarded'',
            Git_merge_and_delete_branch (''release-'' @ str_tail version)]\<rparr>)
   \<and> (git_fetch_branch env (''release-'' @ str_tail version)
        \<and> \<not> git_can_fast_forward env (''release-'' @ str_tail version) \<longrightarrow>
      handle_release_branch env version s =
        s\<lparr>calls := calls s @
           [Git_fetch_branch (''release-'' @ str_tail version),
            Git_can_fast_forward (''release-'' @ str_tail version),
            Info ''Release branch cannot be fast-forwarded, creating pull request'',
            Repo_create_pull (''Merge release branch for '' @ version) []
              (''release-'' @ str_tail version) (repo_default_branch env)]\<rparr>)
   \<and> last (calls (create_release env version sha (handle_release_branch env version s))) =
       Repo_create_git_release version version (changelog_get env version sha)
         (if git_commit_sha_of_default env = sha then repo_default_branch env else sha)"
proof -
  have proceeds:
    "last (calls (create_release env version sha (handle_release_branch env version s))) =
       Repo_create_git_release version version (changelog_get env version sha)
         (if git_commit_sha_of_default env = sha then repo_default_branch env else sha)"
    by (simp add: create_release_calls)
  show ?thesis
    using handle_release_branch_absent [of env version s]
      handle_release_branch_fast_forward [of env version s]
      handle_release_branch_diverged [of env version s]
      proceeds
    by blast
qed

theorem handle_release_branch_cases_witness:
  "\<not> git_fetch_branch test_branch_env ''release-1''
   \<and> calls (handle_release_branch test_branch_env ''v1'' (init False False)) =
       [Git_fetch_branch ''release-1'', Info ''Release branch release-1 does not exist'']
   \<and> git_fetch_branch test_branch_env ''release-2''
   \<and> git_can_fast_forward test_branch_env ''release-2''
   \<and> calls (handle_release_branch test_branch_env ''v2'' (init False False)) =
       [Git_fetch_branch ''release-2'', Git_can_fast_forward ''release-2'',
        Info ''Release branch can be fast-forwarded'',
        Git_merge_and_delete_branch ''release-2'']
   \<and> git_fetch_branch test_branch_env ''release-3''
   \<and> \<not> git_can_fast_forward test_branch_env ''release-3''
   \<and> calls (handle_release_branch test_branch_env ''v3'' (init False False)) =
       [Git_fetch_branch ''release-3'', Git_can_fast_forward ''release-3'',
        Info ''Release branch cannot be fast-forwarded, creating pull request'',
        Repo_create_pull ''Merge release branch for v3'' [] ''release-3'' ''default'']
   \<and> last (calls (create_release test_branch_env ''v3'' ''c''
                    (handle_release_branch test_branch_env ''v3'' (init False False)))) =
       Repo_create_git_release ''v3'' ''v3'' [] ''c''"
proof -
  have absent: "\<not> git_fetch_branch test_branch_env ''release-1''"
    by (simp add: test_branch_env_def quiet_env_def)
  have present2: "git_fetch_branch test_branch_env ''release-2''"
    and ff2: "git_can_fast_forward test_branch_env ''release-2''"
    by (simp_all add: test_branch_env_def quiet_env_def)
  have present3: "git_fetch_branch test_branch_env ''release-3''"
    and diverged3: "\<not> git_can_fast_forward test_branch_env ''release-3''"
    by (simp_all add: test_branch_env_def quiet_env_def)
  have env_facts: "repo_default_branch test_branch_env = ''default''"
    "changelog_get test_branch_env ''v3'' ''c'' = []"
    "git_commit_sha_of_default test_branch_env = []"
    by (simp_all add: test_branch_env_def quiet_env_def)
  note v1 = handle_release_branch_cases [of test_branch_env "''v1''" "init False False" "''c''"]
  note v2 = handle_release_branch_cases [of test_branch_env "''v2''" "init False False" "''c''"]
  note v3 = handle_release_branch_cases [of test_branch_env "''v3''" "init False False" "''c''"]
  from v1 absent
  have r1: "calls (handle_release_branch test_branch_env ''v1'' (init False False)) =
       [Git_fetch_branch ''release-1'', Info ''Release branch release-1 does not exist'']"
    by (simp add: init_def str_tail_ascii)
  from v2 present2 ff2
  have r2: "calls (handle_release_branch test_branch_env ''v2'' (init False False)) =
       [Git_fetch_branch ''release-2'', Git_can_fast_forward ''release-2'',
        Info ''Release branch can be fast-forwarded'',
        Git_merge_and_delete_branch ''release-2'']"
    by (simp add: init_def str_tail_ascii)
  from v3 present3 diverged3 env_facts
  have r3: "calls (handle_release_branch test_branch_env ''v3'' (init False False)) =
       [Git_fetch_branch ''release-3'', Git_can_fast_forward ''release-3'',
        Info ''Release branch cannot be fast-forwarded, creating pull request'',
        Repo_create_pull ''Merge release branch for v3'' [] ''release-3'' ''default'']"
    by (simp add: init_def str_tail_ascii)
  from v3 env_facts
  have p3: "last (calls (create_release test_branch_env ''v3'' ''c''
                    (handle_release_branch test_branch_env ''v3'' (init False False)))) =
       Repo_create_git_release ''v3'' ''v3'' [] ''c''"
    by simp
  from absent present2 ff2 present3 diverged3 r1 r2 r3 p3 show ?thesis
    by blast
qed

lemma handle_release_branch_branches:
  "set (List.map_filter branch_of (calls_since s (handle_release_branch env version s))) =
     {''release-'' @ str_tail version}"
proof (cases "git_fetch_branch env (''release-'' @ str_tail version)")
  case False
  then show ?thesis
    by (simp add: handle_release_branch_absent List.map_filter_simps)
next
  case True
  then show ?thesis
    by (cases "git_can_fast_forward env (''release-'' @ str_tail version)")
      (simp_all add: handle_release_branch_fast_forward handle_release_branch_diverged
        List.map_filter_simps)
qed

lemma handle_release_branch_first_call:
  "hd (calls_since s (handle_release_branch env version s)) =
     Git_fetch_branch (''release-'' @ str_tail version)"
proof (cases "git_fetch_branch env (''release-'' @ str_tail version)")
  case False
  then show ?thesis
    by (simp add: handle_release_branch_absent)
next
  case True
  then show ?thesis
    by (cases "git_can_fast_forward env (''release-'' @ str_tail version)")
      (simp_all add: handle_release_branch_fast_forward handle_release_branch_diverged)
qed

text \<open>
  Claim C10. For every version string, every branch call of
  \<^verbatim>\<open>handle_release_branch\<close> (the fetch, the fast-forward check, the merge, the head
  of the pull request) is on one branch, named \<^verbatim>\<open>release-\<close> followed by the slice
  \<^verbatim>\<open>version[1:]\<close>, the version without its first character: \<^verbatim>\<open>v1.2.3\<close> gives
  \<^verbatim>\<open>release-1.2.3\<close>. The character is dropped whatever it is, an ASCII character
  (one byte) or any other (a lead byte with the bytes that follow it): \<^verbatim>\<open>1.2.3\<close>
  gives \<^verbatim>\<open>release-.2.3\<close>, a version that starts with U+00E9 and goes on with
  \<^verbatim>\<open>1.2\<close> gives \<^verbatim>\<open>release-1.2\<close>, and the empty version gives \<^verbatim>\<open>release-\<close>.
\<close>

theorem release_branch_name:
  "set (List.map_filter branch_of (calls_since s (handle_release_branch env version s))) =
     {''release-'' @ str_tail version}
   \<and> ((of_char c :: nat) < 128 \<longrightarrow>
        set (List.map_filter branch_of (calls_since s (handle_release_branch env (c # rest) s))) =
          {''release-'' @ rest})
   \<and> (utf8_tail (of_char c) = Some (n, lo, hi) \<and> length follow = n \<longrightarrow>
        set (List.map_filter branch_of
               (calls_since s (handle_release_branch env (c # follow @ rest) s))) =
          {''release-'' @ rest})
   \<and> hd (calls_since s (handle_release_branch env ''v1.2.3'' s)) =
       Git_fetch_branch ''release-1.2.3''
   \<and> hd (calls_since s (handle_release_branch env ''1.2.3'' s)) =
       Git_fetch_branch ''release-.2.3''
   \<and> hd (calls_since s (handle_release_branch env (e_acute @ ''1.2'') s)) =
       Git_fetch_branch ''release-1.2''
   \<and> hd (calls_since s (handle_release_branch env [] s)) = Git_fetch_branch ''release-''"
proof (intro conjI impI)
  show "set (List.map_filter branch_of (calls_since s (handle_release_branch env version s))) =
     {''release-'' @ str_tail version}"
    by (rule handle_release_branch_branches)
next
  assume "(of_char c :: nat) < 128"
  then show "set (List.map_filter branch_of
      (calls_since s (handle_release_branch env (c # rest) s))) = {''release-'' @ rest}"
    using handle_release_branch_branches [of s env "c # rest"]
    by (simp add: str_tail_ascii)
next
  assume "utf8_tail (of_char c) = Some (n, lo, hi) \<and> length follow = n"
  then have "str_tail (c # follow @ rest) = rest"
    by (simp add: str_tail_lead)
  then show "set (List.map_filter branch_of
      (calls_since s (handle_release_branch env (c # follow @ rest) s))) = {''release-'' @ rest}"
    using handle_release_branch_branches [of s env "c # follow @ rest"]
    by simp
next
  show "hd (calls_since s (handle_release_branch env ''v1.2.3'' s)) =
      Git_fetch_branch ''release-1.2.3''"
    by (simp add: handle_release_branch_first_call str_tail_ascii)
next
  show "hd (calls_since s (handle_release_branch env ''1.2.3'' s)) =
      Git_fetch_branch ''release-.2.3''"
    by (simp add: handle_release_branch_first_call str_tail_ascii)
next
  have "str_tail (e_acute @ ''1.2'') = ''1.2''"
    by (simp add: e_acute_def str_tail_Cons char_width_def utf8_tail_def)
  then show "hd (calls_since s (handle_release_branch env (e_acute @ ''1.2'') s)) =
      Git_fetch_branch ''release-1.2''"
    by (simp add: handle_release_branch_first_call)
next
  show "hd (calls_since s (handle_release_branch env [] s)) = Git_fetch_branch ''release-''"
    by (simp add: handle_release_branch_first_call str_tail_Nil)
qed

theorem release_branch_name_witness:
  "(of_char CHR ''v'' :: nat) < 128
   \<and> set (List.map_filter branch_of
            (calls (handle_release_branch test_branch_env ''v2'' (init False False)))) =
       {''release-2''}
   \<and> utf8_tail (of_char CHR 0xC3) = Some (1, 128, 191)
   \<and> length [CHR 0xA9] = 1
   \<and> set (List.map_filter branch_of
            (calls (handle_release_branch test_branch_env (e_acute @ ''2'') (init False False)))) =
       {''release-2''}"
proof -
  have ascii: "(of_char CHR ''v'' :: nat) < 128"
    by simp
  have lead: "utf8_tail (of_char CHR 0xC3) = Some (1, 128, 191)"
    by (simp add: utf8_tail_def)
  have one: "length [CHR 0xA9] = 1"
    by simp
  have since: "\<And>s'. calls_since (init False False) s' = calls s'"
    by (simp add: calls_since_def init_def)
  note at_v = release_branch_name
    [where s = "init False False" and env = test_branch_env and version = "''v2''"
       and c = "CHR ''v''" and rest = "''2''" and n = 0 and lo = 0 and hi = 0
       and follow = "[]", unfolded since]
  note at_e = release_branch_name
    [where s = "init False False" and env = test_branch_env and version = "''v2''"
       and c = "CHR 0xC3" and n = 1 and lo = 128 and hi = 191 and follow = "[CHR 0xA9]"
       and rest = "''2''", unfolded since]
  from at_v [THEN conjunct2, THEN conjunct1, THEN mp, OF ascii]
  have plain: "set (List.map_filter branch_of
            (calls (handle_release_branch test_branch_env ''v2'' (init False False)))) =
       {''release-2''}"
    by simp
  from at_e [THEN conjunct2, THEN conjunct2, THEN conjunct1, THEN mp, OF conjI [OF lead one]]
  have accented: "set (List.map_filter branch_of
            (calls (handle_release_branch test_branch_env (e_acute @ ''2'') (init False False)))) =
       {''release-2''}"
    by (simp add: e_acute_def)
  show ?thesis
    by (intro conjI ascii plain lead one accented)
qed

text \<open>
  Claim C6. For every version and commit, \<^verbatim>\<open>create_release\<close> asks GitHub for exactly
  one release, named and tagged by the version, with the changelog as its body; its
  target is the name of the default branch when the commit is the head of the default
  branch, and the commit itself otherwise. It creates a tag through the Git accessor
  if and only if SSH or GPG signing is configured, exactly one, for that version at that
  commit, and the tag is annotated if and only if GPG signing is configured.
\<close>

theorem create_release_target_and_tag:
  "filter is_create_git_release (calls_since s (create_release env version sha s)) =
     [Repo_create_git_release version version (changelog_get env version sha)
        (if sha = git_commit_sha_of_default env then repo_default_branch env else sha)]
   \<and> filter is_create_tag (calls_since s (create_release env version sha s)) =
       (if ssh s \<or> gpg s then [Git_create_tag version sha (gpg s)] else [])
   \<and> (\<exists>annotate. Git_create_tag version sha annotate
          \<in> set (calls_since s (create_release env version sha s))) = (ssh s \<or> gpg s)
   \<and> (Git_create_tag version sha True
          \<in> set (calls_since s (create_release env version sha s))) = gpg s"
  by (auto simp add: create_release_calls)

theorem create_release_target_and_tag_witness:
  "filter is_create_git_release
     (calls (create_release test_release_env ''v1.2.3'' ''a'' (init False False))) =
     [Repo_create_git_release ''v1.2.3'' ''v1.2.3'' ''log'' ''default'']
   \<and> filter is_create_git_release
       (calls (create_release test_release_env ''v1.2.3'' ''b'' (init False False))) =
       [Repo_create_git_release ''v1.2.3'' ''v1.2.3'' ''log'' ''b'']
   \<and> filter is_create_tag
       (calls (create_release test_release_env ''v1.2.3'' ''b'' (init False False))) = []
   \<and> filter is_create_tag
       (calls (create_release test_release_env ''v1.2.3'' ''c'' (init True False))) =
       [Git_create_tag ''v1.2.3'' ''c'' False]
   \<and> filter is_create_tag
       (calls (create_release test_release_env ''v1.2.3'' ''c'' (init False True))) =
       [Git_create_tag ''v1.2.3'' ''c'' True]"
proof -
  have env_facts: "git_commit_sha_of_default test_release_env = ''a''"
    "repo_default_branch test_release_env = ''default''"
    "\<And>version sha. changelog_get test_release_env version sha = ''log''"
    by (simp_all add: test_release_env_def quiet_env_def)
  have since: "\<And>f g s'. calls_since (init f g) s' = calls s'"
    by (simp add: calls_since_def init_def)
  have flags: "\<And>f g. ssh (init f g) = f" "\<And>f g. gpg (init f g) = g"
    by (simp_all add: init_def)
  show ?thesis
    using create_release_target_and_tag [of "init False False" test_release_env "''v1.2.3''" "''a''"]
      create_release_target_and_tag [of "init False False" test_release_env "''v1.2.3''" "''b''"]
      create_release_target_and_tag [of "init True False" test_release_env "''v1.2.3''" "''c''"]
      create_release_target_and_tag [of "init False True" test_release_env "''v1.2.3''" "''c''"]
    unfolding since env_facts flags
    by simp
qed

section \<open>Validation of the candidates\<close>

lemma set_dict_set: "set (dict_set d k v) \<subseteq> insert (k, v) (set d)"
  by (induction d) (auto split: if_splits)

lemma passes_Cons:
  "passes env ((key, tree) # rest) version sha =
     ((version = ''v'' @ key
       \<and> git_commit_sha_of_tree env tree = Some sha
       \<and> sha \<noteq> []
       \<and> \<not> git_invalid_tag_exists env version sha
       \<and> repo_get_release env version = Inl UnknownObjectException)
      \<or> passes env rest version sha)"
  by (auto simp: passes_def)

lemma release_exists_False:
  "release_exists env version s = (Inr False, s') \<Longrightarrow>
   repo_get_release env version = Inl UnknownObjectException"
  by (auto simp: release_exists_def Let_def split: sum.splits if_splits)

lemma loop_passes:
  "filter_map_versions_loop env candidates valid s = (Inr out, s') \<Longrightarrow>
   (version, sha) \<in> set out \<Longrightarrow>
   (version, sha) \<in> set valid \<or> passes env candidates version sha"
proof (induction candidates arbitrary: valid s)
  case Nil
  then show ?case by simp
next
  case (Cons p rest)
  obtain key tree where p: "p = (key, tree)" by (cases p)
  let ?v = "''v'' @ key"
  show ?case
  proof (cases "git_commit_sha_of_tree env tree")
    case None
    with Cons.prems Cons.IH show ?thesis
      by (auto simp: p Let_def passes_Cons)
  next
    case (Some c)
    show ?thesis
    proof (cases "c = []")
      case True
      with Some Cons.prems Cons.IH show ?thesis
        by (auto simp: p Let_def passes_Cons)
    next
      case nonempty: False
      show ?thesis
      proof (cases "git_invalid_tag_exists env ?v c")
        case True
        with Some nonempty Cons.prems Cons.IH show ?thesis
          by (auto simp: p Let_def passes_Cons)
      next
        case valid_tag: False
        obtain r s3 where r: "release_exists env ?v (emit (Git_invalid_tag_exists ?v c)
            (emit (Git_commit_sha_of_tree tree) s)) = (r, s3)"
          by (cases "release_exists env ?v (emit (Git_invalid_tag_exists ?v c)
            (emit (Git_commit_sha_of_tree tree) s))")
        show ?thesis
        proof (cases r)
          case (Inl e)
          with Some nonempty valid_tag r Cons.prems show ?thesis
            by (simp add: p Let_def)
        next
          case (Inr found)
          show ?thesis
          proof (cases found)
            case True
            with Inr Some nonempty valid_tag r Cons.prems
            have "filter_map_versions_loop env rest valid
                    (emit (Info (''Release '' @ ?v @ '' already exists'')) s3) = (Inr out, s')"
              by (simp add: p Let_def)
            from Cons.IH [OF this Cons.prems(2)] show ?thesis
              by (auto simp: p passes_Cons)
          next
            case False
            with Inr Some nonempty valid_tag r Cons.prems
            have "filter_map_versions_loop env rest (dict_set valid ?v c) s3 = (Inr out, s')"
              by (simp add: p Let_def)
            from Cons.IH [OF this Cons.prems(2)]
            have "(version, sha) \<in> set (dict_set valid ?v c) \<or> passes env rest version sha" .
            moreover from r Inr False
            have "repo_get_release env ?v = Inl UnknownObjectException"
              by (auto dest: release_exists_False)
            ultimately show ?thesis
              using set_dict_set [of valid ?v c] Some nonempty valid_tag
              by (auto simp: p passes_Cons)
          qed
        qed
      qed
    qed
  qed
qed

lemma filter_map_versions_scenario:
  "git_commit_sha_of_tree env ''abc'' = None \<Longrightarrow>
   git_commit_sha_of_tree env ''bcd'' = Some sha2 \<Longrightarrow> sha2 \<noteq> [] \<Longrightarrow>
   git_invalid_tag_exists env ''v2.3.4'' sha2 \<Longrightarrow>
   git_commit_sha_of_tree env ''cde'' = Some sha3 \<Longrightarrow> sha3 \<noteq> [] \<Longrightarrow>
   \<not> git_invalid_tag_exists env ''v3.4.5'' sha3 \<Longrightarrow>
   repo_get_release env ''v3.4.5'' = Inr () \<Longrightarrow>
   git_commit_sha_of_tree env ''def'' = Some sha4 \<Longrightarrow> sha4 \<noteq> [] \<Longrightarrow>
   \<not> git_invalid_tag_exists env ''v4.5.6'' sha4 \<Longrightarrow>
   repo_get_release env ''v4.5.6'' = Inl UnknownObjectException \<Longrightarrow>
   filter_map_versions env test_versions s =
     (Inr [(''v4.5.6'', sha4)],
      s\<lparr>calls := calls s @
        [Git_commit_sha_of_tree ''abc'',
         Warn ''No matching commit was found for version v1.2.3 (abc)'',
         Git_commit_sha_of_tree ''bcd'',
         Git_invalid_tag_exists ''v2.3.4'' sha2,
         Error (''Existing tag v2.3.4 points at the wrong commit (expected '' @ sha2 @ '')''),
         Git_commit_sha_of_tree ''cde'',
         Git_invalid_tag_exists ''v3.4.5'' sha3,
         Repo_get_release ''v3.4.5'',
         Info ''Release v3.4.5 already exists'',
         Git_commit_sha_of_tree ''def'',
         Git_invalid_tag_exists ''v4.5.6'' sha4,
         Repo_get_release ''v4.5.6'']\<rparr>)"
  by (simp add: filter_map_versions_def test_versions_def Let_def release_exists_def emit_def)

text \<open>
  Claim C2. Take the four candidates of \<^verbatim>\<open>test_filter_map_versions\<close> in a world where
  the tree \<^verbatim>\<open>abc\<close> resolves to no commit, a tag \<^verbatim>\<open>v2.3.4\<close> exists on a commit other
  than the one of \<^verbatim>\<open>bcd\<close>, a release \<^verbatim>\<open>v3.4.5\<close> exists, and \<^verbatim>\<open>4.5.6\<close> is clean.
  Then \<^verbatim>\<open>_filter_map_versions\<close> returns exactly \<^verbatim>\<open>{"v4.5.6": commit of def}\<close>, and
  what it logs is exactly one warning, one error and one informational message, which
  name \<^verbatim>\<open>v1.2.3\<close>, \<^verbatim>\<open>v2.3.4\<close> and \<^verbatim>\<open>v3.4.5\<close>. And for all candidates and in
  every world, each pair that \<^verbatim>\<open>_filter_map_versions\<close> returns is a prefixed
  candidate whose tree resolves to that (non-empty) commit, with no tag of its name on
  another commit and no release of its name.
\<close>

theorem filter_map_versions_validates:
  "(git_commit_sha_of_tree env ''abc'' = None
    \<and> git_commit_sha_of_tree env ''bcd'' = Some sha2 \<and> sha2 \<noteq> []
    \<and> git_invalid_tag_exists env ''v2.3.4'' sha2
    \<and> git_commit_sha_of_tree env ''cde'' = Some sha3 \<and> sha3 \<noteq> []
    \<and> \<not> git_invalid_tag_exists env ''v3.4.5'' sha3
    \<and> repo_get_release env ''v3.4.5'' = Inr ()
    \<and> git_commit_sha_of_tree env ''def'' = Some sha4 \<and> sha4 \<noteq> []
    \<and> \<not> git_invalid_tag_exists env ''v4.5.6'' sha4
    \<and> repo_get_release env ''v4.5.6'' = Inl UnknownObjectException
    \<longrightarrow>
      fst (filter_map_versions env test_versions s) = Inr [(''v4.5.6'', sha4)]
      \<and> filter is_log (calls_since s (snd (filter_map_versions env test_versions s))) =
          [Warn ''No matching commit was found for version v1.2.3 (abc)'',
           Error (''Existing tag v2.3.4 points at the wrong commit (expected '' @ sha2 @ '')''),
           Info ''Release v3.4.5 already exists''])
   \<and> (fst (filter_map_versions env candidates s) = Inr valid \<and> (version, sha) \<in> set valid
        \<longrightarrow> passes env candidates version sha)"
proof (intro conjI impI)
  assume world: "git_commit_sha_of_tree env ''abc'' = None
    \<and> git_commit_sha_of_tree env ''bcd'' = Some sha2 \<and> sha2 \<noteq> []
    \<and> git_invalid_tag_exists env ''v2.3.4'' sha2
    \<and> git_commit_sha_of_tree env ''cde'' = Some sha3 \<and> sha3 \<noteq> []
    \<and> \<not> git_invalid_tag_exists env ''v3.4.5'' sha3
    \<and> repo_get_release env ''v3.4.5'' = Inr ()
    \<and> git_commit_sha_of_tree env ''def'' = Some sha4 \<and> sha4 \<noteq> []
    \<and> \<not> git_invalid_tag_exists env ''v4.5.6'' sha4
    \<and> repo_get_release env ''v4.5.6'' = Inl UnknownObjectException"
  then have run: "filter_map_versions env test_versions s =
     (Inr [(''v4.5.6'', sha4)],
      s\<lparr>calls := calls s @
        [Git_commit_sha_of_tree ''abc'',
         Warn ''No matching commit was found for version v1.2.3 (abc)'',
         Git_commit_sha_of_tree ''bcd'',
         Git_invalid_tag_exists ''v2.3.4'' sha2,
         Error (''Existing tag v2.3.4 points at the wrong commit (expected '' @ sha2 @ '')''),
         Git_commit_sha_of_tree ''cde'',
         Git_invalid_tag_exists ''v3.4.5'' sha3,
         Repo_get_release ''v3.4.5'',
         Info ''Release v3.4.5 already exists'',
         Git_commit_sha_of_tree ''def'',
         Git_invalid_tag_exists ''v4.5.6'' sha4,
         Repo_get_release ''v4.5.6'']\<rparr>)"
    by (intro filter_map_versions_scenario) simp_all
  show "fst (filter_map_versions env test_versions s) = Inr [(''v4.5.6'', sha4)]"
    by (simp add: run)
  show "filter is_log (calls_since s (snd (filter_map_versions env test_versions s))) =
          [Warn ''No matching commit was found for version v1.2.3 (abc)'',
           Error (''Existing tag v2.3.4 points at the wrong commit (expected '' @ sha2 @ '')''),
           Info ''Release v3.4.5 already exists'']"
    by (simp add: run)
next
  assume kept: "fst (filter_map_versions env candidates s) = Inr valid
    \<and> (version, sha) \<in> set valid"
  obtain s' where "filter_map_versions_loop env candidates [] s = (Inr valid, s')"
    using kept by (cases "filter_map_versions_loop env candidates [] s")
      (simp add: filter_map_versions_def)
  from loop_passes [OF this, of version sha] kept
  show "passes env candidates version sha"
    by simp
qed

theorem filter_map_versions_validates_witness:
  "git_commit_sha_of_tree test_filter_env ''abc'' = None
   \<and> git_commit_sha_of_tree test_filter_env ''bcd'' = Some ''sha''
   \<and> git_invalid_tag_exists test_filter_env ''v2.3.4'' ''sha''
   \<and> git_commit_sha_of_tree test_filter_env ''cde'' = Some ''sha''
   \<and> \<not> git_invalid_tag_exists test_filter_env ''v3.4.5'' ''sha''
   \<and> repo_get_release test_filter_env ''v3.4.5'' = Inr ()
   \<and> git_commit_sha_of_tree test_filter_env ''def'' = Some ''sha''
   \<and> \<not> git_invalid_tag_exists test_filter_env ''v4.5.6'' ''sha''
   \<and> repo_get_release test_filter_env ''v4.5.6'' = Inl UnknownObjectException
   \<and> fst (filter_map_versions test_filter_env test_versions (init False False)) =
       Inr [(''v4.5.6'', ''sha'')]
   \<and> filter is_log (calls (snd (filter_map_versions test_filter_env test_versions
                                   (init False False)))) =
       [Warn ''No matching commit was found for version v1.2.3 (abc)'',
        Error ''Existing tag v2.3.4 points at the wrong commit (expected sha)'',
        Info ''Release v3.4.5 already exists'']
   \<and> (''v4.5.6'', ''sha'') \<in> set [(''v4.5.6'', ''sha'')]
   \<and> passes test_filter_env test_versions ''v4.5.6'' ''sha''"
proof -
  have world: "git_commit_sha_of_tree test_filter_env ''abc'' = None"
    "git_commit_sha_of_tree test_filter_env ''bcd'' = Some ''sha''"
    "git_invalid_tag_exists test_filter_env ''v2.3.4'' ''sha''"
    "git_commit_sha_of_tree test_filter_env ''cde'' = Some ''sha''"
    "\<not> git_invalid_tag_exists test_filter_env ''v3.4.5'' ''sha''"
    "repo_get_release test_filter_env ''v3.4.5'' = Inr ()"
    "git_commit_sha_of_tree test_filter_env ''def'' = Some ''sha''"
    "\<not> git_invalid_tag_exists test_filter_env ''v4.5.6'' ''sha''"
    "repo_get_release test_filter_env ''v4.5.6'' = Inl UnknownObjectException"
    by (simp_all add: test_filter_env_def quiet_env_def)
  have since: "\<And>s'. calls_since (init False False) s' = calls s'"
    by (simp add: calls_since_def init_def)
  note inst = filter_map_versions_validates
    [of test_filter_env "''sha''" "''sha''" "''sha''" "init False False" test_versions
       "[(''v4.5.6'', ''sha'')]" "''v4.5.6''" "''sha''"]
  from inst world
  have result: "fst (filter_map_versions test_filter_env test_versions (init False False)) =
       Inr [(''v4.5.6'', ''sha'')]"
    by simp
  from inst world
  have logged: "filter is_log (calls (snd (filter_map_versions test_filter_env test_versions
                                   (init False False)))) =
       [Warn ''No matching commit was found for version v1.2.3 (abc)'',
        Error ''Existing tag v2.3.4 points at the wrong commit (expected sha)'',
        Info ''Release v3.4.5 already exists'']"
    by (simp add: since)
  from inst result
  have kept: "passes test_filter_env test_versions ''v4.5.6'' ''sha''"
    by simp
  from world result logged kept show ?thesis
    by simp
qed

section \<open>The lookback window\<close>

lemma default_lookback_seconds: "default_lookback = 262800"
  by (simp add: default_lookback_def timedelta_def)

lemma lookback_floor:
  "lookback_cache_ok s \<Longrightarrow> lookback env s = (Inr d, s') \<Longrightarrow>
   default_lookback \<le> d \<and> lookback_cache_ok s'"
  by (auto simp: lookback_def lookback_cache_ok_def Let_def split: option.splits)

lemma lookback_returns:
  "listdir_workflows env = Some entries \<Longrightarrow> \<exists>d s'. lookback env s = (Inr d, s')"
  by (auto simp: lookback_def Let_def split: option.splits)

lemma lookback_found:
  "cached_lookback s = None \<Longrightarrow> listdir_workflows env = Some entries \<Longrightarrow>
   lookback_loop env entries = Some seconds \<Longrightarrow>
   lookback env s =
     (Inr (max (timedelta 0 (3 * seconds) 1) (timedelta 3 0 1)),
      s\<lparr>cached_lookback := Some (max (timedelta 0 (3 * seconds) 1) (timedelta 3 0 1))\<rparr>)"
  by (simp add: lookback_def Let_def default_lookback_def mult.commute)

lemma lookback_loop_none:
  "(\<And>name entry. (name, entry) \<in> set entries \<Longrightarrow>
      entry = Directory \<or> (\<forall>seconds. scan_workflow env entry \<noteq> Inr (Some seconds))) \<Longrightarrow>
   lookback_loop env entries = None"
proof (induction entries)
  case Nil
  then show ?case by simp
next
  case (Cons p rest)
  obtain name entry where p: "p = (name, entry)" by (cases p)
  from Cons.prems [of name entry] p
  have here: "entry = Directory \<or> (\<forall>seconds. scan_workflow env entry \<noteq> Inr (Some seconds))"
    by simp
  from Cons.prems have "lookback_loop env rest = None"
    by (intro Cons.IH) auto
  with here show ?case
    by (auto simp: p split: sum.splits option.splits)
qed

lemma scan_tagbot_workflow:
  "yaml_safe_load env text = Some (tagbot_workflow cron) \<Longrightarrow>
   croniter env cron = Some (nxt, prv) \<Longrightarrow>
   scan_workflow env (File text) = Inr (Some (nxt - prv))"
  by (simp add: scan_workflow_def tagbot_workflow_def and_then_def cron_seconds_def
      seq_get_def is_prefix_def)

lemma lookback_listed:
  "lookback_cache_ok s \<Longrightarrow> listdir_workflows env = Some entries \<Longrightarrow>
   \<exists>d s'. lookback env s = (Inr d, s') \<and> default_lookback \<le> d \<and> lookback_cache_ok s'"
proof -
  assume ok: "lookback_cache_ok s" and listing: "listdir_workflows env = Some entries"
  from lookback_returns [OF listing] obtain d s' where run: "lookback env s = (Inr d, s')"
    by blast
  from lookback_floor [OF ok run] run show ?thesis
    by blast
qed

text \<open>
  Claim C3, as the source has it. The claim speaks of every schedule input, missing
  configuration included. In a working copy without \<^verbatim>\<open>.github/workflows\<close>, a fresh
  \<^verbatim>\<open>Repo\<close> gets no duration from \<^verbatim>\<open>_lookback\<close>, of 3 days 1 hour or more or of any
  length: the error of \<^verbatim>\<open>os.listdir\<close> is the outcome, and the slot stays empty.
\<close>

theorem lookback_returns_no_duration:
  "fst (lookback no_workflows_env (init False False)) = Inl OSError
   \<and> cached_lookback (snd (lookback no_workflows_env (init False False))) = None"
  by (simp add: lookback_def no_workflows_env_def quiet_env_def init_def)

text \<open>
  Claim C3, amended. For every schedule input for which the workflows directory can
  be listed, whatever its files hold (malformed or missing schedule configuration
  included), \<^verbatim>\<open>_lookback\<close> returns a duration, of at least 3 days 1 hour (262800
  seconds), in a run whose cache slot was filled by \<^verbatim>\<open>_lookback\<close> alone, and it leaves
  the slot that way. When the scan of the directory finds a schedule whose firings are
  \<open>seconds\<close> apart, the result is the larger of three times that plus one hour and
  the default; so it is for a workflow like the one of \<^verbatim>\<open>test_lookback\<close>, for every
  cron expression and every distance \<open>nxt - prv\<close> of its firings.
\<close>

theorem lookback_at_least_default:
  "default_lookback = 3 * 86400 + 3600
   \<and> (lookback_cache_ok s \<and> listdir_workflows env = Some entries
        \<longrightarrow> (\<exists>d s'. lookback env s = (Inr d, s') \<and> default_lookback \<le> d
                     \<and> lookback_cache_ok s'))
   \<and> (cached_lookback s = None \<and> listdir_workflows env = Some entries
        \<and> lookback_loop env entries = Some seconds
        \<longrightarrow> fst (lookback env s) = Inr (max (3 * seconds + 3600) default_lookback))
   \<and> (cached_lookback s = None \<and> listdir_workflows env = Some [(name, File contents)]
        \<and> yaml_safe_load env contents = Some (tagbot_workflow cron)
        \<and> croniter env cron = Some (nxt, prv)
        \<longrightarrow> fst (lookback env s) = Inr (max (3 * (nxt - prv) + 3600) default_lookback))"
proof (intro conjI impI)
  show "default_lookback = 3 * 86400 + 3600"
    by (simp add: default_lookback_seconds)
next
  assume "lookback_cache_ok s \<and> listdir_workflows env = Some entries"
  then show "\<exists>d s'. lookback env s = (Inr d, s') \<and> default_lookback \<le> d
      \<and> lookback_cache_ok s'"
    by (intro lookback_listed) simp_all
next
  assume "cached_lookback s = None \<and> listdir_workflows env = Some entries
    \<and> lookback_loop env entries = Some seconds"
  then show "fst (lookback env s) = Inr (max (3 * seconds + 3600) default_lookback)"
    by (simp add: lookback_found timedelta_def default_lookback_def)
next
  assume found: "cached_lookback s = None \<and> listdir_workflows env = Some [(name, File contents)]
    \<and> yaml_safe_load env contents = Some (tagbot_workflow cron)
    \<and> croniter env cron = Some (nxt, prv)"
  then have "scan_workflow env (File contents) = Inr (Some (nxt - prv))"
    by (simp add: scan_tagbot_workflow)
  then have "lookback_loop env [(name, File contents)] = Some (nxt - prv)"
    by simp
  with found show "fst (lookback env s) = Inr (max (3 * (nxt - prv) + 3600) default_lookback)"
    by (simp add: lookback_found timedelta_def default_lookback_def)
qed

theorem lookback_at_least_default_witness:
  "lookback_cache_ok (init False False)
   \<and> cached_lookback (init False False) = None
   \<and> listdir_workflows (test_lookback_env ''every five days'') =
       Some [(''TagBot.yml'', File ''every five days'')]
   \<and> yaml_safe_load (test_lookback_env ''every five days'') ''every five days'' =
       Some (tagbot_workflow ''0 0 */5 * *'')
   \<and> croniter (test_lookback_env ''every five days'') ''0 0 */5 * *'' = Some (864000, 432000)
   \<and> lookback_loop (test_lookback_env ''every five days'')
        [(''TagBot.yml'', File ''every five days'')] = Some 432000
   \<and> fst (lookback (test_lookback_env ''every five days'') (init False False)) =
       Inr (15 * 86400 + 3600)
   \<and> fst (lookback (test_lookback_env ''hourly'') (init False False)) = Inr (3 * 86400 + 3600)
   \<and> listdir_workflows fallback_env = Some fallback_entries
   \<and> (\<exists>d s'. lookback fallback_env (init False False) = (Inr d, s')
          \<and> default_lookback \<le> d \<and> lookback_cache_ok s')"
proof -
  let ?env = "test_lookback_env ''every five days''"
  have ok: "lookback_cache_ok (init False False)"
    and empty: "cached_lookback (init False False) = None"
    by (simp_all add: lookback_cache_ok_def init_def)
  have listing: "listdir_workflows ?env = Some [(''TagBot.yml'', File ''every five days'')]"
    and parsed: "yaml_safe_load ?env ''every five days'' = Some (tagbot_workflow ''0 0 */5 * *'')"
    and firings: "croniter ?env ''0 0 */5 * *'' = Some (864000, 432000)"
    by (simp_all add: test_lookback_env_def quiet_env_def)
  have scan: "lookback_loop ?env [(''TagBot.yml'', File ''every five days'')] = Some 432000"
    using scan_tagbot_workflow [OF parsed firings] by simp
  note five = lookback_at_least_default
    [where s = "init False False" and env = ?env
       and entries = "[(''TagBot.yml'', File ''every five days'')]" and seconds = 432000
       and name = "''TagBot.yml''" and contents = "''every five days''"
       and cron = "''0 0 */5 * *''" and nxt = 864000 and prv = 432000]
  from five empty listing scan
  have computed: "fst (lookback ?env (init False False)) = Inr (15 * 86400 + 3600)"
    by (simp add: default_lookback_seconds)
  have hourly_facts:
    "listdir_workflows (test_lookback_env ''hourly'') = Some [(''TagBot.yml'', File ''hourly'')]"
    "yaml_safe_load (test_lookback_env ''hourly'') ''hourly'' = Some (tagbot_workflow ''0 * * * *'')"
    "croniter (test_lookback_env ''hourly'') ''0 * * * *'' = Some (7200, 3600)"
    by (simp_all add: test_lookback_env_def quiet_env_def)
  from lookback_at_least_default
    [where s = "init False False" and env = "test_lookback_env ''hourly''"
       and entries = "[(''TagBot.yml'', File ''hourly'')]" and seconds = 3600
       and name = "''TagBot.yml''" and contents = "''hourly''"
       and cron = "''0 * * * *''" and nxt = 7200 and prv = 3600]
    empty hourly_facts
  have hourly: "fst (lookback (test_lookback_env ''hourly'') (init False False)) =
      Inr (3 * 86400 + 3600)"
    by (simp add: default_lookback_seconds)
  have listing': "listdir_workflows fallback_env = Some fallback_entries"
    by (simp add: fallback_env_def quiet_env_def)
  note fallen = lookback_at_least_default
    [where s = "init False False" and env = fallback_env and entries = fallback_entries
       and seconds = 0 and name = "[]" and contents = "[]" and cron = "[]"
       and nxt = 0 and prv = 0]
  from fallen [THEN conjunct2, THEN conjunct1, THEN mp, OF conjI [OF ok listing']]
  have floor: "\<exists>d s'. lookback fallback_env (init False False) = (Inr d, s')
          \<and> default_lookback \<le> d \<and> lookback_cache_ok s'" .
  show ?thesis
    by (intro conjI ok empty listing parsed firings scan computed hourly listing' floor)
qed

lemma scan_workflow_unreadable: "scan_workflow env Unreadable = Inl OSError"
  by (simp add: scan_workflow_def)

lemma scan_workflow_malformed:
  "yaml_safe_load env text = None \<Longrightarrow> scan_workflow env (File text) = Inl YAMLError"
  by (simp add: scan_workflow_def)

text \<open>
  Claim C4, as the source has it. \<^verbatim>\<open>os.listdir\<close> stands before the \<^verbatim>\<open>try\<close>: in a
  working copy without \<^verbatim>\<open>.github/workflows\<close> its error leaves \<^verbatim>\<open>_lookback\<close>.
\<close>

theorem lookback_absent_directory_raises:
  "lookback no_workflows_env (init False False) = (Inl OSError, init False False)"
  by (simp add: lookback_def no_workflows_env_def quiet_env_def init_def)

text \<open>
  Claim C4, amended. When the workflows directory can be listed, \<^verbatim>\<open>_lookback\<close> raises
  nothing, whatever the entries are. When, on a first evaluation, every entry is a
  directory, a file that cannot be opened, a file that is not YAML, or a file whose scan
  ends without a schedule or in any exception, the result is the default of 3 days
  1 hour and the state is as before. When the directory cannot be listed, the error of
  \<^verbatim>\<open>os.listdir\<close> is the outcome.
\<close>

theorem lookback_falls_back:
  "(listdir_workflows env = Some entries \<longrightarrow> (\<exists>d s'. lookback env s = (Inr d, s')))
   \<and> (cached_lookback s = None \<and> listdir_workflows env = Some entries
        \<and> (\<forall>(name, entry) \<in> set entries.
              entry = Directory \<or> entry = Unreadable
              \<or> (\<exists>text. entry = File text \<and> yaml_safe_load env text = None)
              \<or> (\<forall>seconds. scan_workflow env entry \<noteq> Inr (Some seconds)))
        \<longrightarrow> lookback env s = (Inr default_lookback, s))
   \<and> (cached_lookback s = None \<and> listdir_workflows env = None
        \<longrightarrow> lookback env s = (Inl OSError, s))"
proof (intro conjI impI)
  assume "listdir_workflows env = Some entries"
  then show "\<exists>d s'. lookback env s = (Inr d, s')"
    by (rule lookback_returns)
next
  assume fallback: "cached_lookback s = None \<and> listdir_workflows env = Some entries
    \<and> (\<forall>(name, entry) \<in> set entries.
          entry = Directory \<or> entry = Unreadable
          \<or> (\<exists>text. entry = File text \<and> yaml_safe_load env text = None)
          \<or> (\<forall>seconds. scan_workflow env entry \<noteq> Inr (Some seconds)))"
  have "lookback_loop env entries = None"
  proof (rule lookback_loop_none)
    fix name entry
    assume "(name, entry) \<in> set entries"
    with fallback
    have "entry = Directory \<or> entry = Unreadable
          \<or> (\<exists>text. entry = File text \<and> yaml_safe_load env text = None)
          \<or> (\<forall>seconds. scan_workflow env entry \<noteq> Inr (Some seconds))"
      by auto
    then show "entry = Directory \<or> (\<forall>seconds. scan_workflow env entry \<noteq> Inr (Some seconds))"
      by (auto simp: scan_workflow_unreadable scan_workflow_malformed)
  qed
  with fallback show "lookback env s = (Inr default_lookback, s)"
    by (simp add: lookback_def)
next
  assume "cached_lookback s = None \<and> listdir_workflows env = None"
  then show "lookback env s = (Inl OSError, s)"
    by (simp add: lookback_def)
qed

theorem lookback_falls_back_witness:
  "listdir_workflows fallback_env = Some fallback_entries
   \<and> cached_lookback (init False False) = None
   \<and> yaml_safe_load fallback_env ''{'' = None
   \<and> scan_workflow fallback_env (File ''some other stuff'') = Inl TypeError
   \<and> lookback fallback_env (init False False) = (Inr (3 * 86400 + 3600), init False False)
   \<and> listdir_workflows no_workflows_env = None
   \<and> fst (lookback no_workflows_env (init False False)) = Inl OSError"
proof -
  have listing: "listdir_workflows fallback_env = Some fallback_entries"
    and malformed: "yaml_safe_load fallback_env ''{'' = None"
    by (simp_all add: fallback_env_def quiet_env_def)
  have empty: "cached_lookback (init False False) = None"
    by (simp add: init_def)
  have other: "scan_workflow fallback_env (File ''some other stuff'') = Inl TypeError"
    by (simp add: scan_workflow_def fallback_env_def quiet_env_def and_then_def)
  have entries: "\<forall>(name, entry) \<in> set fallback_entries.
      entry = Directory \<or> entry = Unreadable
      \<or> (\<exists>text. entry = File text \<and> yaml_safe_load fallback_env text = None)
      \<or> (\<forall>seconds. scan_workflow fallback_env entry \<noteq> Inr (Some seconds))"
    using malformed other by (simp add: fallback_entries_def)
  from lookback_falls_back [of fallback_env fallback_entries "init False False"]
    listing empty entries
  have run: "lookback fallback_env (init False False) = (Inr (3 * 86400 + 3600), init False False)"
    by (simp add: default_lookback_seconds)
  have absent: "listdir_workflows no_workflows_env = None"
    by (simp add: no_workflows_env_def quiet_env_def)
  from lookback_falls_back [of no_workflows_env entries0 "init False False"] absent empty
  have raised: "fst (lookback no_workflows_env (init False False)) = Inl OSError"
    by simp
  from listing empty malformed other run absent raised show ?thesis
    by blast
qed

section \<open>The cache slots\<close>

lemma project_files_frame:
  "project_files env k names s = (r, s') \<Longrightarrow>
   cached_registry_path s' = cached_registry_path s \<and> cached_lookback s' = cached_lookback s
   \<and> calls s' = calls s \<and> ssh s' = ssh s \<and> gpg s' = gpg s"
  by (induction names) (auto split: if_splits option.splits)

lemma project_frame:
  "project env k s = (r, s') \<Longrightarrow>
   cached_registry_path s' = cached_registry_path s \<and> cached_lookback s' = cached_lookback s
   \<and> calls s' = calls s \<and> ssh s' = ssh s \<and> gpg s' = gpg s"
  by (cases "cached_project s")
    (auto simp: project_def simp del: project_files.simps dest: project_files_frame)

lemma registry_path_cached:
  "cached_registry_path s = Some p \<Longrightarrow> registry_path env s = (Inr (Some p), s)"
  by (simp add: registry_path_def)

lemma registry_path_found:
  "registry_path env s = (Inr (Some p), s') \<Longrightarrow> cached_registry_path s' = Some p"
  by (auto simp: registry_path_def Let_def split: option.splits sum.splits prod.splits)

lemma registry_path_absent:
  "registry_path env s = (Inr None, s') \<Longrightarrow> cached_registry_path s' = None"
  by (auto simp: registry_path_def Let_def emit_def dest!: project_frame
      split: option.splits sum.splits prod.splits)

lemma registry_path_asks:
  "cached_registry_path s = None \<Longrightarrow>
   calls (snd (registry_path env s)) = calls s @ [Registry_get_contents ''Registry.toml'' None]"
  by (auto simp: registry_path_def Let_def emit_def dest!: project_frame
      split: option.splits sum.splits prod.splits)

lemma lookback_cached: "cached_lookback s = Some d \<Longrightarrow> lookback env s = (Inr d, s)"
  by (simp add: lookback_def)

lemma registry_path_unregistered:
  "registry_path unregistered_env (s\<lparr>cached_registry_path := None, cached_project := None\<rparr>) =
     (Inr None,
      s\<lparr>cached_registry_path := None,
        cached_project := Some (PDict [(PStr ''name'', PStr ''FooBar''),
                                       (PStr ''uuid'', PStr ''abc-def'')]),
        calls := calls s @ [Registry_get_contents ''Registry.toml'' None]\<rparr>)"
  by (simp add: registry_path_def unregistered_env_def registry_env_def quiet_env_def
      emit_def project_def and_then_def py_str_def Let_def)

lemma registry_path_registered:
  "cached_project s = None \<or> cached_project s = Some (PDict [(PStr ''name'', PStr ''FooBar''),
                                                    (PStr ''uuid'', PStr ''abc-def'')]) \<Longrightarrow>
   cached_registry_path s = None \<Longrightarrow>
   registry_path registered_env s =
     (Inr (Some ''B/Bar''),
      s\<lparr>cached_registry_path := Some ''B/Bar'',
        cached_project := Some (PDict [(PStr ''name'', PStr ''FooBar''),
                                       (PStr ''uuid'', PStr ''abc-def'')]),
        calls := calls s @ [Registry_get_contents ''Registry.toml'' None]\<rparr>)"
  by (auto simp add: registry_path_def registered_env_def registry_env_def quiet_env_def
      emit_def project_def and_then_def py_str_def Let_def)

lemma init_slots:
  "init f g = (init f g)\<lparr>cached_registry_path := None, cached_project := None\<rparr>"
  by (simp add: init_def)

text \<open>
  Claim C9, as the source has it. The fallback of \<^verbatim>\<open>_lookback\<close> to the default and the
  answer \<^verbatim>\<open>None\<close> of \<^verbatim>\<open>_registry_path\<close> for an identifier that the registry lacks
  leave the slot empty, so the next access computes again: after a fallback, an access
  in a working copy that by then has a five-day schedule returns 15 days 1 hour; after
  \<^verbatim>\<open>None\<close>, a second access fetches \<^verbatim>\<open>Registry.toml\<close> again, and once the registry
  lists the package it returns the path. \<^verbatim>\<open>_versions\<close> formats the answer \<^verbatim>\<open>None\<close> into
  the path \<^verbatim>\<open>None/Versions.toml\<close> and returns the empty snapshot when that file is not
  there.
\<close>

theorem memoization_skips_fallback_outcomes:
  "lookback fallback_env (init False False) = (Inr default_lookback, init False False)
   \<and> cached_lookback (snd (lookback fallback_env (init False False))) = None
   \<and> fst (lookback (test_lookback_env ''every five days'')
             (snd (lookback fallback_env (init False False)))) = Inr (15 * 86400 + 3600)
   \<and> fst (registry_path unregistered_env (init False False)) = Inr None
   \<and> cached_registry_path (snd (registry_path unregistered_env (init False False))) = None
   \<and> calls (snd (registry_path unregistered_env
                   (snd (registry_path unregistered_env (init False False))))) =
       [Registry_get_contents ''Registry.toml'' None, Registry_get_contents ''Registry.toml'' None]
   \<and> fst (registry_path registered_env
             (snd (registry_path unregistered_env (init False False)))) = Inr (Some ''B/Bar'')
   \<and> versions unregistered_env None (init False False) =
       (Inr [],
        (init False False)
          \<lparr>cached_project := Some (PDict [(PStr ''name'', PStr ''FooBar''),
                                          (PStr ''uuid'', PStr ''abc-def'')]),
           calls := [Registry_get_contents ''Registry.toml'' None,
                     Registry_get_contents ''None/Versions.toml'' None,
                     Debug ''Versions.toml was not found'']\<rparr>)"
proof -
  have fallen: "lookback fallback_env (init False False) = (Inr default_lookback, init False False)"
    by (simp add: lookback_def init_def fallback_env_def fallback_entries_def quiet_env_def
        scan_workflow_def and_then_def)
  have empty: "cached_lookback (init False False) = None"
    by (simp add: init_def)
  have again: "fst (lookback (test_lookback_env ''every five days'') (init False False)) =
      Inr (15 * 86400 + 3600)"
    by (simp add: lookback_def init_def test_lookback_env_def quiet_env_def scan_workflow_def
        tagbot_workflow_def and_then_def cron_seconds_def seq_get_def is_prefix_def
        timedelta_def default_lookback_def)
  have first: "registry_path unregistered_env (init False False) =
     (Inr None,
      (init False False)
        \<lparr>cached_registry_path := None,
         cached_project := Some (PDict [(PStr ''name'', PStr ''FooBar''),
                                        (PStr ''uuid'', PStr ''abc-def'')]),
         calls := calls (init False False) @ [Registry_get_contents ''Registry.toml'' None]\<rparr>)"
    using registry_path_unregistered [of "init False False"] init_slots [of False False]
    by simp
  have second: "calls (snd (registry_path unregistered_env
                   (snd (registry_path unregistered_env (init False False))))) =
       [Registry_get_contents ''Registry.toml'' None, Registry_get_contents ''Registry.toml'' None]"
    by (simp add: first registry_path_asks) (simp add: init_def)
  have later: "fst (registry_path registered_env
             (snd (registry_path unregistered_env (init False False)))) = Inr (Some ''B/Bar'')"
    by (simp add: first registry_path_registered)
  have snapshot: "versions unregistered_env None (init False False) =
       (Inr [],
        (init False False)
          \<lparr>cached_project := Some (PDict [(PStr ''name'', PStr ''FooBar''),
                                          (PStr ''uuid'', PStr ''abc-def'')]),
           calls := [Registry_get_contents ''Registry.toml'' None,
                     Registry_get_contents ''None/Versions.toml'' None,
                     Debug ''Versions.toml was not found'']\<rparr>)"
    by (simp add: versions_def truthy_def read_versions_def first format_root_def Let_def emit_def)
      (simp add: unregistered_env_def registry_env_def quiet_env_def init_def emit_def)
  from fallen empty again first second later snapshot show ?thesis
    by simp
qed

text \<open>
  Claim C9, amended. A value that was found is memoized: once \<^verbatim>\<open>_lookback\<close> has found
  a schedule, or \<^verbatim>\<open>_registry_path\<close> the identifier, every later access, whatever the
  working copy and the registry hold by then, returns that value and does nothing
  else. The other outcomes are not memoized: the fallback of \<^verbatim>\<open>_lookback\<close> returns
  the default and leaves the state as it was, and \<^verbatim>\<open>_registry_path\<close> answers the
  absent identifier with \<^verbatim>\<open>None\<close>, leaves its slot empty and fetches \<^verbatim>\<open>Registry.toml\<close>
  again at the next access.
\<close>

theorem memoization_of_found_values:
  "(cached_lookback s = None \<and> listdir_workflows env = Some entries
    \<and> lookback_loop env entries = Some seconds
    \<longrightarrow> lookback env' (snd (lookback env s)) = (fst (lookback env s), snd (lookback env s)))
   \<and> (cached_lookback s = None \<and> listdir_workflows env = Some entries
        \<and> lookback_loop env entries = None
        \<longrightarrow> lookback env s = (Inr default_lookback, s))
   \<and> (registry_path env s = (Inr (Some p), s')
        \<longrightarrow> registry_path env' s' = (Inr (Some p), s'))
   \<and> (registry_path env s = (Inr None, s')
        \<longrightarrow> cached_registry_path s' = None
            \<and> calls (snd (registry_path env' s')) =
                calls s' @ [Registry_get_contents ''Registry.toml'' None])"
proof (intro conjI impI)
  assume "cached_lookback s = None \<and> listdir_workflows env = Some entries
    \<and> lookback_loop env entries = Some seconds"
  then show "lookback env' (snd (lookback env s)) = (fst (lookback env s), snd (lookback env s))"
    by (simp add: lookback_found lookback_cached)
next
  assume "cached_lookback s = None \<and> listdir_workflows env = Some entries
    \<and> lookback_loop env entries = None"
  then show "lookback env s = (Inr default_lookback, s)"
    by (simp add: lookback_def)
next
  assume "registry_path env s = (Inr (Some p), s')"
  then have "cached_registry_path s' = Some p"
    by (rule registry_path_found)
  then show "registry_path env' s' = (Inr (Some p), s')"
    by (rule registry_path_cached)
next
  assume absent: "registry_path env s = (Inr None, s')"
  then show slot: "cached_registry_path s' = None"
    by (rule registry_path_absent)
  then show "calls (snd (registry_path env' s')) =
      calls s' @ [Registry_get_contents ''Registry.toml'' None]"
    by (rule registry_path_asks)
qed

theorem memoization_of_found_values_witness:
  "cached_lookback (init False False) = None
   \<and> listdir_workflows (test_lookback_env ''every five days'') =
       Some [(''TagBot.yml'', File ''every five days'')]
   \<and> lookback_loop (test_lookback_env ''every five days'')
        [(''TagBot.yml'', File ''every five days'')] = Some 432000
   \<and> fst (lookback (test_lookback_env ''every five days'') (init False False)) =
       Inr (15 * 86400 + 3600)
   \<and> fst (lookback fallback_env
             (snd (lookback (test_lookback_env ''every five days'') (init False False)))) =
       Inr (15 * 86400 + 3600)
   \<and> listdir_workflows fallback_env = Some fallback_entries
   \<and> lookback_loop fallback_env fallback_entries = None
   \<and> lookback fallback_env (init False False) = (Inr (3 * 86400 + 3600), init False False)
   \<and> fst (registry_path registered_env (init False False)) = Inr (Some ''B/Bar'')
   \<and> fst (registry_path unregistered_env (snd (registry_path registered_env (init False False)))) =
       Inr (Some ''B/Bar'')
   \<and> calls (snd (registry_path unregistered_env
                   (snd (registry_path registered_env (init False False))))) =
       [Registry_get_contents ''Registry.toml'' None]
   \<and> fst (registry_path unregistered_env (init False False)) = Inr None
   \<and> calls (snd (registry_path registered_env
                   (snd (registry_path unregistered_env (init False False))))) =
       [Registry_get_contents ''Registry.toml'' None, Registry_get_contents ''Registry.toml'' None]"
proof -
  let ?five = "test_lookback_env ''every five days''"
  let ?project = "Some (PDict [(PStr ''name'', PStr ''FooBar''), (PStr ''uuid'', PStr ''abc-def'')])"
  let ?found = "(init False False)
        \<lparr>cached_registry_path := Some ''B/Bar'', cached_project := ?project,
         calls := calls (init False False) @ [Registry_get_contents ''Registry.toml'' None]\<rparr>"
  let ?missed = "(init False False)
        \<lparr>cached_registry_path := None, cached_project := ?project,
         calls := calls (init False False) @ [Registry_get_contents ''Registry.toml'' None]\<rparr>"
  have empty: "cached_lookback (init False False) = None"
    by (simp add: init_def)
  have listing: "listdir_workflows ?five = Some [(''TagBot.yml'', File ''every five days'')]"
    by (simp add: test_lookback_env_def quiet_env_def)
  have scan: "lookback_loop ?five [(''TagBot.yml'', File ''every five days'')] = Some 432000"
    by (simp add: test_lookback_env_def quiet_env_def scan_workflow_def tagbot_workflow_def
        and_then_def cron_seconds_def seq_get_def is_prefix_def)
  have computed: "fst (lookback ?five (init False False)) = Inr (15 * 86400 + 3600)"
    using lookback_found [OF empty listing scan] by (simp add: timedelta_def)
  have listing': "listdir_workflows fallback_env = Some fallback_entries"
    by (simp add: fallback_env_def quiet_env_def)
  have scan': "lookback_loop fallback_env fallback_entries = None"
    by (simp add: fallback_env_def fallback_entries_def quiet_env_def scan_workflow_def and_then_def)
  have found: "registry_path registered_env (init False False) = (Inr (Some ''B/Bar''), ?found)"
    by (rule registry_path_registered) (simp_all add: init_def)
  have missed: "registry_path unregistered_env (init False False) = (Inr None, ?missed)"
    using registry_path_unregistered [of "init False False"] init_slots [of False False]
    by simp
  note lookback_kept = memoization_of_found_values
    [of "init False False" ?five "[(''TagBot.yml'', File ''every five days'')]" 432000
       fallback_env p0 s0]
  note lookback_fallen = memoization_of_found_values
    [of "init False False" fallback_env fallback_entries seconds0 env0 p0 s0]
  note path_kept = memoization_of_found_values
    [of "init False False" registered_env entries0 seconds0 unregistered_env "''B/Bar''" ?found]
  note path_missed = memoization_of_found_values
    [of "init False False" unregistered_env entries0 seconds0 registered_env p0 ?missed]
  from lookback_kept empty listing scan computed
  have kept: "fst (lookback fallback_env (snd (lookback ?five (init False False)))) =
      Inr (15 * 86400 + 3600)"
    by simp
  from lookback_fallen empty listing' scan'
  have fallen: "lookback fallback_env (init False False) = (Inr (3 * 86400 + 3600), init False False)"
    by (simp add: default_lookback_seconds)
  from path_kept found
  have same: "registry_path unregistered_env ?found = (Inr (Some ''B/Bar''), ?found)"
    by blast
  from path_missed missed
  have asked: "calls (snd (registry_path registered_env ?missed)) =
      calls ?missed @ [Registry_get_contents ''Registry.toml'' None]"
    by blast
  have c1: "fst (registry_path registered_env (init False False)) = Inr (Some ''B/Bar'')"
    by (simp add: found)
  have c2: "fst (registry_path unregistered_env
       (snd (registry_path registered_env (init False False)))) = Inr (Some ''B/Bar'')"
    by (simp add: found same)
  have c3: "calls (snd (registry_path unregistered_env
       (snd (registry_path registered_env (init False False))))) =
       [Registry_get_contents ''Registry.toml'' None]"
    by (simp add: found same) (simp add: init_def)
  have c4: "fst (registry_path unregistered_env (init False False)) = Inr None"
    by (simp add: missed)
  have c5: "calls (snd (registry_path registered_env
       (snd (registry_path unregistered_env (init False False))))) =
       [Registry_get_contents ''Registry.toml'' None, Registry_get_contents ''Registry.toml'' None]"
    by (simp add: missed asked) (simp add: init_def)
  from empty listing scan computed kept listing' scan' fallen c1 c2 c3 c4 c5 show ?thesis
    by blast
qed

section \<open>Reading a snapshot\<close>

lemma read_versions_absent:
  "registry_path env s = (Inr root, s1) \<Longrightarrow>
   registry_get_contents env (format_root root @ ''/Versions.toml'') ref =
     Inl UnknownObjectException \<Longrightarrow>
   read_versions env ref s =
     (Inr [],
      s1\<lparr>calls := calls s1 @
         [Registry_get_contents (format_root root @ ''/Versions.toml'') ref,
          Debug ''Versions.toml was not found'']\<rparr>)"
  by (simp add: read_versions_def Let_def emit_def)

lemma read_versions_present:
  "registry_path env s = (Inr root, s1) \<Longrightarrow>
   registry_get_contents env (format_root root @ ''/Versions.toml'') ref = Inr text \<Longrightarrow>
   toml_loads env text = Some document \<Longrightarrow>
   read_versions env ref s =
     (and_then (py_iter document) (\<lambda>keys. tree_shas document keys []),
      s1\<lparr>calls := calls s1 @
         [Registry_get_contents (format_root root @ ''/Versions.toml'') ref]\<rparr>)"
  by (simp add: read_versions_def Let_def emit_def)

lemma dict_set_fresh: "k \<notin> fst ` set d \<Longrightarrow> dict_set d k v = d @ [(k, v)]"
  by (induction d) auto

lemma dict_get_versions_toml:
  "distinct (map fst snapshot) \<Longrightarrow> (v, tree) \<in> set snapshot \<Longrightarrow>
   dict_get (map (\<lambda>(v, tree). (PStr v, PDict [(PStr ''git-tree-sha1'', PStr tree)])) snapshot)
     (PStr v) = Some (PDict [(PStr ''git-tree-sha1'', PStr tree)])"
  by (induction snapshot) (auto simp: image_iff)

lemma tree_shas_versions_toml:
  "distinct (map fst (done @ rest)) \<Longrightarrow>
   tree_shas (versions_toml (done @ rest)) (map (\<lambda>(v, tree). PStr v) rest) done =
     Inr (done @ rest)"
proof (induction rest arbitrary: "done")
  case Nil
  then show ?case by simp
next
  case (Cons p rest)
  obtain v tree where p: "p = (v, tree)" by (cases p)
  from Cons.prems have fresh: "v \<notin> fst ` set done"
    by (auto simp: p)
  from Cons.prems
  have entry: "py_getitem (versions_toml (done @ p # rest)) (PStr v) =
      Inr (PDict [(PStr ''git-tree-sha1'', PStr tree)])"
    using dict_get_versions_toml [of "done @ p # rest" v tree]
    by (simp add: versions_toml_def p)
  from Cons.prems have "distinct (map fst ((done @ [p]) @ rest))"
    by simp
  from Cons.IH [OF this] entry fresh show ?case
    by (simp add: p and_then_def dict_set_fresh)
qed

lemma py_iter_versions_toml:
  "py_iter (versions_toml snapshot) = Inr (map (\<lambda>(v, tree). PStr v) snapshot)"
  by (simp add: versions_toml_def split_beta)

lemma versions_toml_snapshot:
  "distinct (map fst snapshot) \<Longrightarrow>
   and_then (py_iter (versions_toml snapshot)) (\<lambda>keys. tree_shas (versions_toml snapshot) keys [])
     = Inr snapshot"
  using tree_shas_versions_toml [of "[]" snapshot]
  by (simp add: and_then_def py_iter_versions_toml)

lemma versions_without_age: "versions env None s = read_versions env None s"
  by (simp add: versions_def truthy_def)

lemma versions_no_commits:
  "age \<noteq> 0 \<Longrightarrow> registry_get_commits env (now env - age) = [] \<Longrightarrow>
   versions env (Some age) s =
     (Inr [],
      s\<lparr>calls := calls s @
         [Registry_get_commits (now env - age), Debug ''No registry commits were found'']\<rparr>)"
  by (simp add: versions_def truthy_def Let_def emit_def)

lemma versions_at_commit:
  "age \<noteq> 0 \<Longrightarrow> registry_get_commits env (now env - age) = commit # older \<Longrightarrow>
   versions env (Some age) s =
     read_versions env (Some commit)
       (s\<lparr>calls := calls s @ [Registry_get_commits (now env - age)]\<rparr>)"
  by (simp add: versions_def truthy_def Let_def emit_def)

text \<open>
  Claim C8. Take a run in which \<^verbatim>\<open>_registry_path\<close> answers (with a path or with
  \<^verbatim>\<open>None\<close>). Without a minimum age, \<^verbatim>\<open>_versions\<close> asks for the versions file at no
  reference, and when the registry does not know the file the result is the empty
  snapshot, not an error. With a minimum age other than zero, it first asks for the
  commits until the present minus the age. When there is none, the result is the
  empty snapshot and nothing else is asked. Otherwise it asks for the versions file at
  the first of these commits: when the file is unknown there, the result is the empty
  snapshot; when the file records a snapshot, the result is that snapshot.
\<close>

theorem versions_snapshot_reading:
  "(registry_path env s = (Inr root, s1)
    \<and> registry_get_contents env (format_root root @ ''/Versions.toml'') None =
        Inl UnknownObjectException
    \<longrightarrow> versions env None s =
          (Inr [],
           s1\<lparr>calls := calls s1 @
              [Registry_get_contents (format_root root @ ''/Versions.toml'') None,
               Debug ''Versions.toml was not found'']\<rparr>))
   \<and> (age \<noteq> 0 \<and> registry_get_commits env (now env - age) = []
       \<longrightarrow> versions env (Some age) s =
             (Inr [],
              s\<lparr>calls := calls s @
                 [Registry_get_commits (now env - age),
                  Debug ''No registry commits were found'']\<rparr>))
   \<and> (age \<noteq> 0 \<and> registry_get_commits env (now env - age) = commit # older
       \<and> registry_path env (s\<lparr>calls := calls s @ [Registry_get_commits (now env - age)]\<rparr>) =
           (Inr root, s2)
       \<and> registry_get_contents env (format_root root @ ''/Versions.toml'') (Some commit) =
           Inl UnknownObjectException
       \<longrightarrow> versions env (Some age) s =
             (Inr [],
              s2\<lparr>calls := calls s2 @
                 [Registry_get_contents (format_root root @ ''/Versions.toml'') (Some commit),
                  Debug ''Versions.toml was not found'']\<rparr>))
   \<and> (age \<noteq> 0 \<and> registry_get_commits env (now env - age) = commit # older
       \<and> registry_path env (s\<lparr>calls := calls s @ [Registry_get_commits (now env - age)]\<rparr>) =
           (Inr root, s2)
       \<and> registry_get_contents env (format_root root @ ''/Versions.toml'') (Some commit) =
           Inr contents
       \<and> toml_loads env contents = Some (versions_toml snapshot)
       \<and> distinct (map fst snapshot)
       \<longrightarrow> versions env (Some age) s =
             (Inr snapshot,
              s2\<lparr>calls := calls s2 @
                 [Registry_get_contents (format_root root @ ''/Versions.toml'')
                    (Some commit)]\<rparr>))"
proof (intro conjI impI)
  assume "registry_path env s = (Inr root, s1)
    \<and> registry_get_contents env (format_root root @ ''/Versions.toml'') None =
        Inl UnknownObjectException"
  then show "versions env None s =
          (Inr [],
           s1\<lparr>calls := calls s1 @
              [Registry_get_contents (format_root root @ ''/Versions.toml'') None,
               Debug ''Versions.toml was not found'']\<rparr>)"
    by (simp add: versions_without_age read_versions_absent)
next
  assume "age \<noteq> 0 \<and> registry_get_commits env (now env - age) = []"
  then show "versions env (Some age) s =
             (Inr [],
              s\<lparr>calls := calls s @
                 [Registry_get_commits (now env - age),
                  Debug ''No registry commits were found'']\<rparr>)"
    by (simp add: versions_no_commits)
next
  assume "age \<noteq> 0 \<and> registry_get_commits env (now env - age) = commit # older
       \<and> registry_path env (s\<lparr>calls := calls s @ [Registry_get_commits (now env - age)]\<rparr>) =
           (Inr root, s2)
       \<and> registry_get_contents env (format_root root @ ''/Versions.toml'') (Some commit) =
           Inl UnknownObjectException"
  then show "versions env (Some age) s =
             (Inr [],
              s2\<lparr>calls := calls s2 @
                 [Registry_get_contents (format_root root @ ''/Versions.toml'') (Some commit),
                  Debug ''Versions.toml was not found'']\<rparr>)"
    by (simp add: versions_at_commit read_versions_absent)
next
  assume "age \<noteq> 0 \<and> registry_get_commits env (now env - age) = commit # older
       \<and> registry_path env (s\<lparr>calls := calls s @ [Registry_get_commits (now env - age)]\<rparr>) =
           (Inr root, s2)
       \<and> registry_get_contents env (format_root root @ ''/Versions.toml'') (Some commit) =
           Inr contents
       \<and> toml_loads env contents = Some (versions_toml snapshot)
       \<and> distinct (map fst snapshot)"
  then show "versions env (Some age) s =
             (Inr snapshot,
              s2\<lparr>calls := calls s2 @
                 [Registry_get_contents (format_root root @ ''/Versions.toml'')
                    (Some commit)]\<rparr>)"
    by (simp add: versions_at_commit read_versions_present versions_toml_snapshot)
qed

theorem versions_snapshot_reading_witness:
  "registry_get_contents (versions_env [''abcdef''] False) ''path/Versions.toml'' None =
     Inl UnknownObjectException
   \<and> versions (versions_env [''abcdef''] False) None path_cached =
       (Inr [],
        path_cached\<lparr>calls := [Registry_get_contents ''path/Versions.toml'' None,
                              Debug ''Versions.toml was not found'']\<rparr>)
   \<and> registry_get_commits (versions_env [] True) (1000000 - 259200) = []
   \<and> versions (versions_env [] True) (Some 259200) path_cached =
       (Inr [],
        path_cached\<lparr>calls := [Registry_get_commits (1000000 - 259200),
                              Debug ''No registry commits were found'']\<rparr>)
   \<and> registry_get_commits (versions_env [''abcdef''] False) (1000000 - 259200) = [''abcdef'']
   \<and> versions (versions_env [''abcdef''] False) (Some 259200) path_cached =
       (Inr [],
        path_cached\<lparr>calls := [Registry_get_commits (1000000 - 259200),
                              Registry_get_contents ''path/Versions.toml'' (Some ''abcdef''),
                              Debug ''Versions.toml was not found'']\<rparr>)
   \<and> toml_loads (versions_env [''abcdef''] True) ''versions'' = Some (versions_toml test_current)
   \<and> distinct (map fst test_current)
   \<and> versions (versions_env [''abcdef''] True) (Some 259200) path_cached =
       (Inr [(''1.2.3'', ''abc''), (''2.3.4'', ''bcd'')],
        path_cached\<lparr>calls := [Registry_get_commits (1000000 - 259200),
                              Registry_get_contents ''path/Versions.toml'' (Some ''abcdef'')]\<rparr>)"
proof -
  let ?asked = "path_cached\<lparr>calls := calls path_cached @ [Registry_get_commits (1000000 - 259200)]\<rparr>"
  have no_calls: "calls path_cached = []"
    by (simp add: path_cached_def init_def)
  have cached: "\<And>env. registry_path env path_cached = (Inr (Some ''path''), path_cached)"
    "\<And>env. registry_path env ?asked = (Inr (Some ''path''), ?asked)"
    by (simp_all add: registry_path_cached path_cached_def)
  have path: "format_root (Some ''path'') @ ''/Versions.toml'' = ''path/Versions.toml''"
    by (simp add: format_root_def)
  have clock: "\<And>commits present. now (versions_env commits present) = 1000000"
    by (simp add: versions_env_def)
  have commits: "\<And>commits present until.
      registry_get_commits (versions_env commits present) until = commits"
    by (simp add: versions_env_def)
  have missing: "\<And>commits ref.
      registry_get_contents (versions_env commits False) ''path/Versions.toml'' ref =
        Inl UnknownObjectException"
    by (simp add: versions_env_def)
  have there: "\<And>commits ref.
      registry_get_contents (versions_env commits True) ''path/Versions.toml'' ref = Inr ''versions''"
    by (simp add: versions_env_def)
  have parsed: "\<And>commits present.
      toml_loads (versions_env commits present) ''versions'' = Some (versions_toml test_current)"
    by (simp add: versions_env_def)
  have keys: "distinct (map fst test_current)"
    by (simp add: test_current_def)
  have age: "(259200::int) \<noteq> 0"
    by simp
  from versions_snapshot_reading
    [where env = "versions_env [''abcdef''] False" and s = path_cached
       and root = "Some ''path''" and ?s1.0 = path_cached]
    cached missing
  have live: "versions (versions_env [''abcdef''] False) None path_cached =
       (Inr [],
        path_cached\<lparr>calls := [Registry_get_contents ''path/Versions.toml'' None,
                              Debug ''Versions.toml was not found'']\<rparr>)"
    by (simp add: path no_calls)
  from versions_snapshot_reading
    [where env = "versions_env [] True" and s = path_cached and age = 259200]
    commits
  have none: "versions (versions_env [] True) (Some 259200) path_cached =
       (Inr [],
        path_cached\<lparr>calls := [Registry_get_commits (1000000 - 259200),
                              Debug ''No registry commits were found'']\<rparr>)"
    by (simp add: clock no_calls)
  from versions_snapshot_reading
    [where env = "versions_env [''abcdef''] False" and s = path_cached and age = 259200
       and commit = "''abcdef''" and older = "[]" and root = "Some ''path''"
       and ?s2.0 = ?asked]
    commits cached missing
  have gone: "versions (versions_env [''abcdef''] False) (Some 259200) path_cached =
       (Inr [],
        path_cached\<lparr>calls := [Registry_get_commits (1000000 - 259200),
                              Registry_get_contents ''path/Versions.toml'' (Some ''abcdef''),
                              Debug ''Versions.toml was not found'']\<rparr>)"
    by (simp add: clock path no_calls)
  from versions_snapshot_reading
    [where env = "versions_env [''abcdef''] True" and s = path_cached and age = 259200
       and commit = "''abcdef''" and older = "[]" and root = "Some ''path''"
       and ?s2.0 = ?asked and contents = "''versions''" and snapshot = test_current]
    commits cached there parsed keys
  have old: "versions (versions_env [''abcdef''] True) (Some 259200) path_cached =
       (Inr [(''1.2.3'', ''abc''), (''2.3.4'', ''bcd'')],
        path_cached\<lparr>calls := [Registry_get_commits (1000000 - 259200),
                              Registry_get_contents ''path/Versions.toml'' (Some ''abcdef'')]\<rparr>)"
    by (simp add: clock path no_calls) (simp add: test_current_def)
  from missing commits parsed keys live none gone old show ?thesis
    by simp
qed

section \<open>Reconciliation of two snapshots\<close>

lemma map_of_not_in_old:
  "map_of (not_in_old A B) k = (if k \<in> fst ` set B then None else map_of A k)"
  unfolding not_in_old_def
  by (induction A) (force simp: image_iff)+

lemma new_versions_steps:
  "versions env None s = (Inr A, s1) \<Longrightarrow>
   lookback env (emit (Debug (''There are '' @ str_of_nat (length A) @ '' total versions'')) s1) =
     (Inr window, s3) \<Longrightarrow>
   versions env (Some window) s3 = (Inr B, s4) \<Longrightarrow>
   new_versions env s =
     filter_map_versions env (not_in_old A B)
       (emit (Debug (''There are '' @ str_of_nat (length B) @ '' new versions'')) s4)"
  by (simp add: new_versions_def Let_def)

lemma new_versions_kept:
  assumes run: "versions env None s = (Inr A, s1)"
    "lookback env (emit (Debug (''There are '' @ str_of_nat (length A) @ '' total versions'')) s1) =
       (Inr window, s3)"
    "versions env (Some window) s3 = (Inr B, s4)"
    and kept: "fst (new_versions env s) = Inr valid" "(version, sha) \<in> set valid"
  shows "\<exists>(key, tree) \<in> set A.
           key \<notin> fst ` set B \<and> version = ''v'' @ key
           \<and> git_commit_sha_of_tree env tree = Some sha"
proof -
  let ?s5 = "emit (Debug (''There are '' @ str_of_nat (length B) @ '' new versions'')) s4"
  from run have "new_versions env s = filter_map_versions env (not_in_old A B) ?s5"
    by (rule new_versions_steps)
  with kept(1) obtain s' where
    "filter_map_versions_loop env (not_in_old A B) [] ?s5 = (Inr valid, s')"
    by (cases "filter_map_versions_loop env (not_in_old A B) [] ?s5")
      (simp add: filter_map_versions_def)
  from loop_passes [OF this kept(2)] have "passes env (not_in_old A B) version sha"
    by simp
  then show ?thesis
    by (auto simp: passes_def not_in_old_def)
qed

lemma test_new_versions_run:
  "\<exists>s1 s3 s4.
     versions test_new_versions_env None path_cached = (Inr test_current, s1)
     \<and> lookback test_new_versions_env
          (emit (Debug (''There are '' @ str_of_nat (length test_current) @ '' total versions''))
             s1) = (Inr default_lookback, s3)
     \<and> versions test_new_versions_env (Some default_lookback) s3 = (Inr test_old, s4)"
proof -
  let ?E = test_new_versions_env
  let ?s1 = "path_cached\<lparr>calls := calls path_cached @
      [Registry_get_contents (format_root (Some ''path'') @ ''/Versions.toml'') None]\<rparr>"
  let ?s2 = "emit (Debug (''There are '' @ str_of_nat (length test_current)
      @ '' total versions'')) ?s1"
  let ?s3 = "?s2\<lparr>calls := calls ?s2 @ [Registry_get_commits (now ?E - default_lookback)]\<rparr>"
  let ?s4 = "?s3\<lparr>calls := calls ?s3 @
      [Registry_get_contents (format_root (Some ''path'') @ ''/Versions.toml'') (Some ''abcdef'')]\<rparr>"
  have keys: "distinct (map fst test_current)" "distinct (map fst test_old)"
    by (simp_all add: test_current_def test_old_def)
  have live: "registry_get_contents ?E (format_root (Some ''path'') @ ''/Versions.toml'') None =
      Inr ''current''"
    and past: "registry_get_contents ?E (format_root (Some ''path'') @ ''/Versions.toml'')
      (Some ''abcdef'') = Inr ''old''"
    and parsed: "toml_loads ?E ''current'' = Some (versions_toml test_current)"
      "toml_loads ?E ''old'' = Some (versions_toml test_old)"
    and commits: "registry_get_commits ?E (now ?E - default_lookback) = [''abcdef'']"
    and listing: "listdir_workflows ?E = Some []"
    by (simp_all add: test_new_versions_env_def quiet_env_def format_root_def)
  have first: "versions ?E None path_cached = (Inr test_current, ?s1)"
    using read_versions_present [OF registry_path_cached live parsed(1), of path_cached]
    by (simp add: versions_without_age versions_toml_snapshot keys path_cached_def)
  have window: "lookback ?E ?s2 = (Inr default_lookback, ?s2)"
    by (simp add: lookback_def listing emit_def path_cached_def init_def)
  have age: "default_lookback \<noteq> 0"
    by (simp add: default_lookback_seconds)
  have second: "versions ?E (Some default_lookback) ?s2 = (Inr test_old, ?s4)"
    using read_versions_present [OF registry_path_cached past parsed(2), of ?s3]
    by (simp add: versions_at_commit [OF age commits] versions_toml_snapshot keys
        path_cached_def emit_def)
  from first window second show ?thesis
    by blast
qed

text \<open>
  Claim C1. Let \<open>A\<close> be the snapshot that \<^verbatim>\<open>new_versions\<close> reads first (current) and
  \<open>B\<close> the one it reads as of the lookback. Then \<^verbatim>\<open>new_versions\<close> is
  \<^verbatim>\<open>_filter_map_versions\<close> applied to the difference of the two, and to nothing else;
  the difference holds exactly the pairs (key, tree SHA) of \<open>A\<close> whose key is not a
  key of \<open>B\<close>, whatever \<open>B\<close> records for its keys, and as a dict it answers every
  key of \<open>B\<close> with nothing and every other key as \<open>A\<close> does. So every version that
  \<^verbatim>\<open>new_versions\<close> returns is the prefixed form of a key that is in \<open>A\<close> and not in
  \<open>B\<close>, with the commit of its tree.
\<close>

theorem new_versions_difference:
  "(versions env None s = (Inr A, s1)
    \<and> lookback env
          (emit (Debug (''There are '' @ str_of_nat (length A) @ '' total versions'')) s1) =
        (Inr window, s3)
    \<and> versions env (Some window) s3 = (Inr B, s4)
    \<longrightarrow>
      new_versions env s =
        filter_map_versions env (not_in_old A B)
          (emit (Debug (''There are '' @ str_of_nat (length B) @ '' new versions'')) s4)
      \<and> (fst (new_versions env s) = Inr valid \<and> (version, sha) \<in> set valid
           \<longrightarrow> (\<exists>(key, tree) \<in> set A.
                  key \<notin> fst ` set B \<and> version = ''v'' @ key
                  \<and> git_commit_sha_of_tree env tree = Some sha)))
   \<and> set (not_in_old A B) = {(k, tree). (k, tree) \<in> set A \<and> k \<notin> fst ` set B}
   \<and> map_of (not_in_old A B) = (\<lambda>k. if k \<in> fst ` set B then None else map_of A k)"
proof (intro conjI impI)
  assume run: "versions env None s = (Inr A, s1)
    \<and> lookback env
          (emit (Debug (''There are '' @ str_of_nat (length A) @ '' total versions'')) s1) =
        (Inr window, s3)
    \<and> versions env (Some window) s3 = (Inr B, s4)"
  note first = run [THEN conjunct1]
    and window = run [THEN conjunct2, THEN conjunct1]
    and second = run [THEN conjunct2, THEN conjunct2]
  from first window second show "new_versions env s =
        filter_map_versions env (not_in_old A B)
          (emit (Debug (''There are '' @ str_of_nat (length B) @ '' new versions'')) s4)"
    by (rule new_versions_steps)
  assume kept: "fst (new_versions env s) = Inr valid \<and> (version, sha) \<in> set valid"
  from first window second kept [THEN conjunct1] kept [THEN conjunct2]
  show "\<exists>(key, tree) \<in> set A.
                  key \<notin> fst ` set B \<and> version = ''v'' @ key
                  \<and> git_commit_sha_of_tree env tree = Some sha"
    by (rule new_versions_kept)
next
  show "set (not_in_old A B) = {(k, tree). (k, tree) \<in> set A \<and> k \<notin> fst ` set B}"
    unfolding not_in_old_def by auto
next
  show "map_of (not_in_old A B) = (\<lambda>k. if k \<in> fst ` set B then None else map_of A k)"
    by (rule ext) (rule map_of_not_in_old)
qed

theorem new_versions_difference_witness:
  "(\<exists>s1 s3 s4.
      versions test_new_versions_env None path_cached = (Inr test_current, s1)
      \<and> lookback test_new_versions_env
           (emit (Debug (''There are '' @ str_of_nat (length test_current) @ '' total versions''))
              s1) = (Inr default_lookback, s3)
      \<and> versions test_new_versions_env (Some default_lookback) s3 = (Inr test_old, s4))
   \<and> fst (new_versions test_new_versions_env path_cached) =
       Inr [(''v2.3.4'', ''commit of bcd'')]
   \<and> (''v2.3.4'', ''commit of bcd'') \<in> set [(''v2.3.4'', ''commit of bcd'')]
   \<and> (\<exists>(key, tree) \<in> set test_current.
          key \<notin> fst ` set test_old \<and> ''v2.3.4'' = ''v'' @ key
          \<and> git_commit_sha_of_tree test_new_versions_env tree = Some ''commit of bcd'')
   \<and> set (not_in_old test_current test_old) = {(''2.3.4'', ''bcd'')}"
proof -
  let ?E = test_new_versions_env
  from test_new_versions_run obtain s1 s3 s4 where
    first: "versions ?E None path_cached = (Inr test_current, s1)"
    and window: "lookback ?E
          (emit (Debug (''There are '' @ str_of_nat (length test_current) @ '' total versions''))
             s1) = (Inr default_lookback, s3)"
    and second: "versions ?E (Some default_lookback) s3 = (Inr test_old, s4)"
    by blast
  note inst = new_versions_difference
    [where env = ?E and s = path_cached and A = test_current and ?s1.0 = s1
       and window = default_lookback and ?s3.0 = s3 and B = test_old and ?s4.0 = s4
       and valid = "[(''v2.3.4'', ''commit of bcd'')]" and version = "''v2.3.4''"
       and sha = "''commit of bcd''"]
  from inst first window second
  have composed: "new_versions ?E path_cached =
      filter_map_versions ?E (not_in_old test_current test_old)
        (emit (Debug (''There are '' @ str_of_nat (length test_old) @ '' new versions'')) s4)"
    by blast
  then have result: "fst (new_versions ?E path_cached) = Inr [(''v2.3.4'', ''commit of bcd'')]"
    by (simp add: not_in_old_def test_current_def test_old_def filter_map_versions_def Let_def
        release_exists_def test_new_versions_env_def quiet_env_def)
  have member: "(''v2.3.4'', ''commit of bcd'') \<in> set [(''v2.3.4'', ''commit of bcd'')]"
    by simp
  from inst first window second result member
  have origin: "\<exists>(key, tree) \<in> set test_current.
          key \<notin> fst ` set test_old \<and> ''v2.3.4'' = ''v'' @ key
          \<and> git_commit_sha_of_tree ?E tree = Some ''commit of bcd''"
    by blast
  from inst have "set (not_in_old test_current test_old) =
      {(k, tree). (k, tree) \<in> set test_current \<and> k \<notin> fst ` set test_old}"
    by blast
  then have pairs: "set (not_in_old test_current test_old) = {(''2.3.4'', ''bcd'')}"
    by (auto simp: test_current_def test_old_def)
  show ?thesis
    by (intro conjI test_new_versions_run result member origin pairs)
qed

section \<open>Base64 credentials\<close>

lemma recompose3:
  fixes n :: nat
  shows "n div 4096 * 4096 + n div 64 mod 64 * 64 + n mod 64 = n"
proof -
  have "n mod (64 * 64) = 64 * (n div 64 mod 64) + n mod 64"
    by (rule mod_mult2_eq)
  moreover have "n div 4096 * 4096 + n mod 4096 = n"
    by (rule div_mult_mod_eq)
  ultimately show ?thesis by simp
qed

lemma recompose4:
  fixes n :: nat
  shows "n div 262144 * 262144 + n div 4096 mod 64 * 4096 + n div 64 mod 64 * 64 + n mod 64 = n"
proof -
  have "n mod (4096 * 64) = 4096 * (n div 4096 mod 64) + n mod 4096"
    by (rule mod_mult2_eq)
  moreover have "n mod (64 * 64) = 64 * (n div 64 mod 64) + n mod 64"
    by (rule mod_mult2_eq)
  moreover have "n div 262144 * 262144 + n mod 262144 = n"
    by (rule div_mult_mod_eq)
  ultimately show ?thesis by simp
qed

lemma bytes3:
  fixes a b c :: nat
  assumes "a < 256" "b < 256" "c < 256"
  shows "(a * 65536 + b * 256 + c) div 65536 = a"
    and "(a * 65536 + b * 256 + c) div 256 mod 256 = b"
    and "(a * 65536 + b * 256 + c) mod 256 = c"
proof -
  show "(a * 65536 + b * 256 + c) div 65536 = a"
    using assms by (intro div_nat_eqI) simp_all
  have "(a * 65536 + b * 256 + c) div 256 = a * 256 + b"
    using assms by (intro div_nat_eqI) simp_all
  then show "(a * 65536 + b * 256 + c) div 256 mod 256 = b"
    using assms by simp
  have "(a * 65536 + b * 256 + c) div 256 * 256 + (a * 65536 + b * 256 + c) mod 256
      = a * 65536 + b * 256 + c"
    by (rule div_mult_mod_eq)
  with \<open>(a * 65536 + b * 256 + c) div 256 = a * 256 + b\<close>
  show "(a * 65536 + b * 256 + c) mod 256 = c"
    by simp
qed

lemma bytes2:
  fixes a b :: nat
  assumes "a < 256" "b < 256"
  shows "(a * 1024 + b * 4) div 1024 = a"
    and "(a * 1024 + b * 4) div 4 mod 256 = b"
proof -
  show "(a * 1024 + b * 4) div 1024 = a"
    using assms by (intro div_nat_eqI) simp_all
  have "(a * 1024 + b * 4) div 4 = a * 256 + b"
    by (intro div_nat_eqI) simp_all
  then show "(a * 1024 + b * 4) div 4 mod 256 = b"
    using assms by simp
qed

lemma bytes1:
  fixes a :: nat
  shows "(a * 16 div 64 * 64 + a * 16 mod 64) div 16 = a"
proof -
  have "a * 16 div 64 * 64 + a * 16 mod 64 = a * 16"
    by (rule div_mult_mod_eq)
  then show ?thesis by simp
qed


lemma b64_bytes_sextets:
  "list_all (\<lambda>b. b < 256) bs \<Longrightarrow> b64_bytes (sextets bs) = map char_of bs"
proof (induction bs rule: sextets.induct)
  case (1 a b c rest)
  then have small: "a < 256" "b < 256" "c < 256" and rest: "list_all (\<lambda>b. b < 256) rest"
    by simp_all
  define n where "n = a * 65536 + b * 256 + c"
  have "b64_bytes (sextets (a # b # c # rest)) =
      b64_bytes (n div 262144 # n div 4096 mod 64 # n div 64 mod 64 # n mod 64 # sextets rest)"
    by (simp add: n_def Let_def)
  also have "\<dots> = char_of (n div 65536) # char_of (n div 256 mod 256) # char_of (n mod 256)
      # b64_bytes (sextets rest)"
    by (simp only: b64_bytes.simps Let_def recompose4)
  also have "\<dots> = char_of a # char_of b # char_of c # map char_of rest"
    using bytes3 [OF small] "1.IH" rest by (simp only: n_def)
  finally show ?case by simp
next
  case (2 a b)
  then have small: "a < 256" "b < 256"
    by simp_all
  define n where "n = a * 1024 + b * 4"
  have "b64_bytes (sextets [a, b]) = b64_bytes [n div 4096, n div 64 mod 64, n mod 64]"
    by (simp add: n_def Let_def)
  also have "\<dots> = [char_of (n div 1024), char_of (n div 4 mod 256)]"
    by (simp only: b64_bytes.simps Let_def recompose3)
  also have "\<dots> = [char_of a, char_of b]"
    using bytes2 [OF small] by (simp only: n_def)
  finally show ?case by simp
next
  case (3 a)
  have "b64_bytes (sextets [a]) = [char_of ((a * 16 div 64 * 64 + a * 16 mod 64) div 16)]"
    by (simp only: sextets.simps b64_bytes.simps)
  then show ?case
    by (simp only: bytes1 list.map)
next
  case 4
  then show ?case by simp
qed


lemma sextets_small:
  "list_all (\<lambda>b. b < 256) bs \<Longrightarrow> list_all (\<lambda>d. d < 64) (sextets bs)"
proof (induction bs rule: sextets.induct)
  case (1 a b c rest)
  then have "a * 65536 + b * 256 + c < 64 * 262144"
    by simp
  then have "(a * 65536 + b * 256 + c) div 262144 < 64"
    by (rule less_mult_imp_div_less)
  with 1 show ?case
    by (simp add: Let_def)
next
  case (2 a b)
  then have "a * 1024 + b * 4 < 64 * 4096"
    by simp
  then have "(a * 1024 + b * 4) div 4096 < 64"
    by (rule less_mult_imp_div_less)
  then show ?case
    by (simp add: Let_def)
next
  case (3 a)
  then have "a * 16 < 64 * 64"
    by simp
  then have "a * 16 div 64 < 64"
    by (rule less_mult_imp_div_less)
  then show ?case
    by simp
next
  case 4
  then show ?case by simp
qed

lemma sextets_length:
  "length (sextets bs) mod 4 = (if length bs mod 3 = 0 then 0 else length bs mod 3 + 1)"
  by (induction bs rule: sextets.induct) (simp_all add: Let_def)

lemma sextets_empty: "(sextets bs = []) = (bs = [])"
  by (cases bs rule: sextets.cases) (simp_all add: Let_def)

lemma index_of_nth:
  "distinct xs \<Longrightarrow> i < length xs \<Longrightarrow> index_of (xs ! i) xs = Some i"
proof (induction xs arbitrary: i)
  case Nil
  then show ?case by simp
next
  case (Cons x xs)
  then show ?case
    by (cases i) auto
qed

lemma b64_alphabet_length: "length b64_alphabet = 64"
  by (simp add: b64_alphabet_def)

lemma b64_alphabet_distinct: "distinct b64_alphabet"
  by (simp add: b64_alphabet_def)

lemma b64_alphabet_plain:
  "list_all (\<lambda>c. c \<noteq> CHR ''='' \<and> \<not> 128 \<le> (of_char c :: nat)) b64_alphabet"
  by (simp add: b64_alphabet_def)


lemma those_map_Some:
  "(\<And>x. x \<in> set xs \<Longrightarrow> f x = Some (g x)) \<Longrightarrow> those (map f xs) = Some (map g xs)"
  by (induction xs) simp_all

lemma b64decode_b64encode: "b64decode (b64encode s) = Inr s"
proof -
  define digits where "digits = sextets (map of_char s)"
  define encoded where "encoded = map (\<lambda>i. b64_alphabet ! i) digits"
  define k where "k = (3 - length s mod 3) mod 3"
  have bytes: "list_all (\<lambda>b. b < 256) (map of_char s :: nat list)"
    by (simp add: list_all_iff)
  have small: "\<And>d. d \<in> set digits \<Longrightarrow> d < 64"
    using sextets_small [OF bytes] by (simp add: digits_def list_all_iff)
  have plain: "c \<noteq> CHR ''='' \<and> \<not> 128 \<le> (of_char c :: nat)" if "c \<in> set encoded" for c
  proof -
    from that obtain d where "d \<in> set digits" and c: "c = b64_alphabet ! d"
      by (auto simp: encoded_def)
    then have "c \<in> set b64_alphabet"
      using small [of d] by (simp add: b64_alphabet_length)
    with b64_alphabet_plain show ?thesis
      by (simp add: list_all_iff)
  qed
  have whole: "b64encode s = encoded @ replicate k CHR ''=''"
    by (simp add: b64encode_def encoded_def digits_def k_def)
  have data: "takeWhile (\<lambda>c. c \<noteq> CHR ''='') (b64encode s) = encoded"
    using plain by (cases k) (simp_all add: whole takeWhile_append2)
  have padding: "dropWhile (\<lambda>c. c \<noteq> CHR ''='') (b64encode s) = replicate k CHR ''=''"
    using plain by (cases k) (simp_all add: whole dropWhile_append2)
  have ascii: "\<not> list_ex (\<lambda>c. 128 \<le> (of_char c :: nat)) (b64encode s)"
    using plain by (auto simp: whole list_ex_iff)
  have "those (map (\<lambda>c. index_of c b64_alphabet) encoded) =
      those (map (\<lambda>d. index_of (b64_alphabet ! d) b64_alphabet) digits)"
    by (simp add: encoded_def comp_def)
  also have "\<dots> = Some (map (\<lambda>d. d) digits)"
    using small by (intro those_map_Some index_of_nth b64_alphabet_distinct)
      (simp add: b64_alphabet_length)
  finally have indices: "those (map (\<lambda>c. index_of c b64_alphabet) encoded) = Some digits"
    by simp
  have len: "length encoded mod 4 = (if length s mod 3 = 0 then 0 else length s mod 3 + 1)"
    using sextets_length [of "map of_char s"] by (simp add: encoded_def digits_def)
  have pads: "k = (if length s mod 3 = 0 then 0 else 3 - length s mod 3)"
    by (simp add: k_def)
  have cases3: "length s mod 3 = 0 \<or> length s mod 3 = 1 \<or> length s mod 3 = 2"
    by arith
  have unencoded: "s = []" if "encoded = []"
    using that sextets_empty [of "map of_char s :: nat list"]
    by (simp add: encoded_def digits_def)
  have decoded: "b64_bytes digits = s"
    using b64_bytes_sextets [OF bytes] by (simp add: digits_def comp_def)
  have fit0: "\<not> (encoded = [] \<and> replicate k CHR ''='' \<noteq> [])"
  proof
    assume both: "encoded = [] \<and> replicate k CHR ''='' \<noteq> []"
    then have "encoded = []" by simp
    then have "s = []" by (rule unencoded)
    then have "k = 0" by (simp add: k_def)
    with both show False by simp
  qed
  have fits: "length encoded mod 4 \<noteq> 1"
    "\<not> (length encoded mod 4 = 2 \<and> k \<noteq> 2)"
    "\<not> (length encoded mod 4 = 3 \<and> k \<noteq> 1)"
    using cases3 by (auto simp: len pads)
  show ?thesis
    unfolding b64decode_def
    using ascii fit0 fits
    by (simp add: Let_def data padding indices decoded list_all_iff)
qed

lemma maybe_b64_b64encode:
  "utf8_valid (map of_char s) \<Longrightarrow> maybe_b64 (b64encode s) = Inr s"
  by (simp add: maybe_b64_def b64decode_b64encode)

lemma maybe_b64_not_base64:
  "b64decode val = Inl BinasciiError \<Longrightarrow> maybe_b64 val = Inr val"
  by (simp add: maybe_b64_def)

lemma index_of_None: "(index_of x xs = None) = (x \<notin> set xs)"
  by (induction xs) auto

lemma those_None: "x \<in> set xs \<Longrightarrow> f x = None \<Longrightarrow> those (map f xs) = None"
  by (induction xs) (auto split: option.splits)

lemma maybe_b64_passes_plain:
  assumes ascii: "\<not> list_ex (\<lambda>c. 128 \<le> (of_char c :: nat)) val"
    and other: "c \<in> set val" "c \<noteq> CHR ''=''" "c \<notin> set b64_alphabet"
  shows "maybe_b64 val = Inr val"
proof -
  let ?data = "takeWhile (\<lambda>c. c \<noteq> CHR ''='') val"
  let ?padding = "dropWhile (\<lambda>c. c \<noteq> CHR ''='') val"
  have "set ?data \<union> set ?padding = set val"
    by (simp only: set_append [symmetric] takeWhile_dropWhile_id)
  with other(1) consider (data) "c \<in> set ?data" | (padding) "c \<in> set ?padding"
    by blast
  then have "b64decode val = Inl BinasciiError"
  proof cases
    case data
    with other(3) have "those (map (\<lambda>c. index_of c b64_alphabet) ?data) = None"
      by (intro those_None [of c]) (simp_all add: index_of_None)
    with ascii show ?thesis
      by (simp add: b64decode_def Let_def)
  next
    case padding
    with other(2) have "\<not> list_all (\<lambda>c. c = CHR ''='') ?padding"
      by (auto simp: list_all_iff)
    with ascii show ?thesis
      by (simp add: b64decode_def Let_def split: option.splits)
  qed
  then show ?thesis
    by (rule maybe_b64_not_base64)
qed

lemma char_of_is: "(char_of (n::nat) = c) = (n mod 256 = of_char c)"
  by (simp add: char_of_eq_iff take_bit_eq_mod)

lemma test_maybe_b64:
  "maybe_b64 ''foo bar'' = Inr ''foo bar''"
  "maybe_b64 ''Zm9v'' = Inr ''foo''"
  by (simp_all add: maybe_b64_def b64decode_def b64_alphabet_def utf8_tail_def Let_def
      char_of_is)

text \<open>
  Claim C7. The first half holds: \<open>maybe_b64_b64encode\<close> shows that the base64
  encoding of a \<^verbatim>\<open>str\<close> decodes to that \<^verbatim>\<open>str\<close>, and \<open>maybe_b64_passes_plain\<close> that
  an ASCII text with a character that is neither a base64 digit nor \<^verbatim>\<open>=\<close> comes back
  unchanged. The second half does not: \<^verbatim>\<open>_maybe_b64\<close> catches \<^verbatim>\<open>binascii.Error\<close>
  alone. A \<^verbatim>\<open>str\<close> with a character beyond ASCII, which is not base64, makes
  \<^verbatim>\<open>b64decode\<close> raise a plain \<^verbatim>\<open>ValueError\<close>; and \<^verbatim>\<open>abcd\<close>, base64 digits that no
  \<^verbatim>\<open>str\<close> encodes to, decodes to bytes that are not UTF-8, so that \<^verbatim>\<open>decode()\<close>
  raises \<^verbatim>\<open>UnicodeDecodeError\<close>. Both exceptions leave the method.
\<close>

theorem maybe_b64_raises:
  "maybe_b64 e_acute = Inl ValueError \<and> maybe_b64 ''abcd'' = Inl UnicodeDecodeError"
  by (simp add: maybe_b64_def b64decode_def b64_alphabet_def utf8_tail_def Let_def
      char_of_is e_acute_def)

end
